theory Spec2Isabelle
  imports Main "HOL-Library.Word"
begin

section \<open>JavaScript strings\<close>

text \<open>
  A JavaScript string is a sequence of UTF-16 code units; \<open>length\<close>, \<open>split\<close>,
  \<open>startsWith\<close>, \<open>slice\<close>, \<open>trim\<close> and a regular expression without the \<open>u\<close>
  flag all work on code units. \<open>js\<close> writes an ASCII literal of the source.
\<close>

type_synonym code_unit = "16 word"
type_synonym js_string = "code_unit list"

definition js :: "string \<Rightarrow> js_string" where
  "js s = map of_char s"

definition startsWith :: "js_string \<Rightarrow> js_string \<Rightarrow> bool" where
  "startsWith s p = (take (length p) s = p)"

fun js_includes :: "js_string \<Rightarrow> js_string \<Rightarrow> bool" where
  "js_includes [] p = (p = [])"
| "js_includes (c # cs) p = (startsWith (c # cs) p \<or> js_includes cs p)"

text \<open>\<open>s.split(sep)\<close> for a separator of one code unit: never the empty list.\<close>

fun js_split :: "code_unit \<Rightarrow> js_string \<Rightarrow> js_string list" where
  "js_split sep [] = [[]]"
| "js_split sep (c # cs) =
     (if c = sep then [] # js_split sep cs
      else (case js_split sep cs of [] \<Rightarrow> [[c]] | l # ls \<Rightarrow> (c # l) # ls))"

definition newline :: code_unit where
  "newline = 0x0A"

text \<open>
  ECMAScript's WhiteSpace and LineTerminator code units, the ones \<open>trim\<close> strips:
  TAB, VT, FF, SP, NBSP, ZWNBSP, the Unicode space separators, LF, CR, LS, PS.
\<close>

definition isWhiteSpace :: "code_unit \<Rightarrow> bool" where
  "isWhiteSpace c =
     (c = 0x09 \<or> c = 0x0A \<or> c = 0x0B \<or> c = 0x0C \<or> c = 0x0D \<or> c = 0x20 \<or> c = 0xA0
      \<or> c = 0x1680 \<or> (0x2000 \<le> c \<and> c \<le> 0x200A) \<or> c = 0x2028 \<or> c = 0x2029
      \<or> c = 0x202F \<or> c = 0x205F \<or> c = 0x3000 \<or> c = 0xFEFF)"

definition trim :: "js_string \<Rightarrow> js_string" where
  "trim s = rev (dropWhile isWhiteSpace (rev (dropWhile isWhiteSpace s)))"

text \<open>Truthiness of a string that may be \<open>null\<close> or \<open>undefined\<close>.\<close>

fun truthy :: "js_string option \<Rightarrow> bool" where
  "truthy None = False"
| "truthy (Some s) = (s \<noteq> [])"

text \<open>\<open>String(n)\<close> for a non-negative integer, as a template literal prints it.\<close>

definition digit :: "nat \<Rightarrow> code_unit" where
  "digit d = 0x30 + of_nat d"

function show_nat :: "nat \<Rightarrow> js_string" where
  "show_nat n = (if n < 10 then [digit n] else show_nat (n div 10) @ [digit (n mod 10)])"
  by pat_completeness auto
termination
  by (relation "measure id") auto

declare show_nat.simps [simp del]

section \<open>ChatInterface.tsx: the data\<close>

datatype role = User | Assistant

datatype attachment_type = AttImage | AttFile

text \<open>The fields a message keeps of an attachment, and the attachment with its File.\<close>

record attachment_info =
  att_type :: attachment_type
  att_url :: js_string
  att_name :: js_string

type_synonym file_handle = nat

record attachment = attachment_info +
  att_file :: file_handle

record message =
  role :: role
  content :: js_string
  msg_attachments :: "attachment_info list option"

text \<open>An entry of the history sent to the backend: role and content, nothing else.\<close>

record history_entry =
  h_role :: role
  h_content :: js_string

text \<open>The component's state, the ref and the browser's local storage.\<close>

record chat_state =
  messages :: "message list"
  input :: js_string
  isLoading :: bool
  attachments :: "attachment list"
  sessionId :: "js_string option"
  quotationId :: "js_string option"
  assistantMessageRef :: int
  localStorage :: "js_string \<rightharpoonup> js_string"

definition greeting :: message where
  "greeting = \<lparr>role = Assistant,
     content = js ''Hello! I am your AI Construction Consultant. How can I help you regarding your project cost or quotation?'',
     msg_attachments = None\<rparr>"

text \<open>The \<open>useState\<close> defaults, over whatever local storage an earlier session left.\<close>

definition initial_state :: "(js_string \<rightharpoonup> js_string) \<Rightarrow> chat_state" where
  "initial_state ls =
     \<lparr>messages = [greeting], input = [], isLoading = False, attachments = [],
      sessionId = None, quotationId = None, assistantMessageRef = - 1, localStorage = ls\<rparr>"

section \<open>ChatInterface.tsx: sessions\<close>

text \<open>
  \<open>generateSessionId\<close>: the argument is \<open>Math.random().toString(36).substring(2, 15)\<close>,
  the random part drawn by the browser.
\<close>

definition generateSessionId :: "js_string \<Rightarrow> js_string" where
  "generateSessionId rnd = js ''session-'' @ rnd"

text \<open>The effect run once on mount.\<close>

definition session_init :: "js_string \<Rightarrow> chat_state \<Rightarrow> chat_state" where
  "session_init rnd st =
     (let newSessionId = generateSessionId rnd;
          st1 = st\<lparr>sessionId := Some newSessionId\<rparr>;
          st2 = st1\<lparr>localStorage := (localStorage st1)(js ''chat_session_id'' \<mapsto> newSessionId)\<rparr>
      in st2\<lparr>quotationId := None\<rparr>)"

definition handleNewChat :: "js_string \<Rightarrow> chat_state \<Rightarrow> chat_state" where
  "handleNewChat rnd st =
     (let newSessionId = generateSessionId rnd;
          st1 = st\<lparr>sessionId := Some newSessionId\<rparr>;
          st2 = st1\<lparr>messages := [greeting]\<rparr>;
          st3 = st2\<lparr>quotationId := None\<rparr>;
          st4 = st3\<lparr>localStorage := (localStorage st3)(js ''chat_session_id'' \<mapsto> newSessionId)\<rparr>;
          st5 = st4\<lparr>localStorage := (localStorage st4)(js ''quotation_id'' := None)\<rparr>
      in st5\<lparr>localStorage := (localStorage st5)(js ''chat_messages'' := None)\<rparr>)"

text \<open>The page load: the defaults, then the mount effect.\<close>

definition page_load :: "js_string \<Rightarrow> (js_string \<rightharpoonup> js_string) \<Rightarrow> chat_state" where
  "page_load rnd ls = session_init rnd (initial_state ls)"

section \<open>ChatInterface.tsx: sendMessage\<close>

subsection \<open>Requests and what the network answers\<close>

record form_data =
  fd_message :: js_string
  fd_history :: "history_entry list"
  fd_session_id :: "js_string option"
  fd_quotation_id :: "js_string option"
  fd_files :: "file_handle list"

record json_body =
  jb_message :: js_string
  jb_history :: "history_entry list"
  jb_session_id :: "js_string option"
  jb_quotation_id :: "js_string option"

text \<open>
  The two calls of the source: \<open>axios.post(url, formData)\<close> with content type
  multipart/form-data, and \<open>fetch(url, {method: 'POST', body: JSON.stringify(...)})\<close>.
\<close>

datatype http_request =
  AxiosPostMultipart js_string form_data
| FetchPostJson js_string json_body

datatype js_error = Error js_string

fun error_message :: "js_error \<Rightarrow> js_string" where
  "error_message (Error m) = m"

text \<open>
  \<open>axios.post\<close> resolves with \<open>response.data.response\<close> and \<open>response.data.quotation_id\<close>,
  or rejects.
\<close>

datatype axios_result =
  AxiosResolved js_string "js_string option"
| AxiosRejected js_error

text \<open>
  The body's reader yields decoded chunks and then reports \<open>done\<close>, or a read rejects.
  \<open>fetch\<close> resolves with a status and a body (absent when \<open>response.body\<close> is null),
  or rejects.
\<close>

datatype stream_end = StreamDone | StreamFailed js_error

datatype fetch_result =
  FetchResolved nat "(js_string list \<times> stream_end) option"
| FetchRejected js_error

text \<open>
  What \<open>JSON.parse\<close> of a data line's payload gives, read through \<open>data.type\<close>:
  the fragment a content event appends, the \<open>quotation_id\<close> of a done event, the
  message of an error event, or any other value.
\<close>

datatype sse_event =
  ContentEvent js_string
| DoneEvent "js_string option"
| ErrorEvent js_string
| OtherEvent

text \<open>
  The environment of one call: \<open>NEXT_PUBLIC_API_URL\<close>, the answers of the network,
  \<open>JSON.parse\<close> (an error where it throws), and when React runs the updaters of the
  content events (see the locals of the read loop).
\<close>

record environment =
  NEXT_PUBLIC_API_URL :: "js_string option"
  axios_reply :: axios_result
  fetch_reply :: fetch_result
  JSON_parse :: "js_string \<Rightarrow> js_error + sse_event"
  react_renders :: "bool list"

definition apiUrl :: "environment \<Rightarrow> js_string" where
  "apiUrl env =
     (if truthy (NEXT_PUBLIC_API_URL env) then the (NEXT_PUBLIC_API_URL env)
      else js ''http://localhost:8001'')"

definition response_ok :: "nat \<Rightarrow> bool" where
  "response_ok status = (200 \<le> status \<and> status \<le> 299)"

subsection \<open>The history of a request\<close>

text \<open>\<open>String(msg.content || '')\<close> on a string.\<close>

definition content_string :: "js_string \<Rightarrow> js_string" where
  "content_string c = (if c \<noteq> [] then c else [])"

definition historyForRequest :: "message list \<Rightarrow> history_entry list" where
  "historyForRequest msgs =
     map (\<lambda>msg. \<lparr>h_role = role msg, h_content = content_string (content msg)\<rparr>)
       (filter (\<lambda>msg. role msg = User \<or> role msg = Assistant) msgs)"

subsection \<open>The streaming read loop\<close>

text \<open>
  The updater that \<open>setMessages\<close> queues for a content event. It reads
  \<open>assistantMessageRef.current\<close> and \<open>fullResponse\<close> when React runs it, not when it
  is queued.
\<close>

definition update_assistant :: "int \<Rightarrow> js_string \<Rightarrow> message list \<Rightarrow> message list" where
  "update_assistant idx fullResponse prev =
     (if 0 \<le> idx \<and> idx < int (length prev) \<and> role (prev ! nat idx) = Assistant
      then prev[nat idx := (prev ! nat idx)\<lparr>content := fullResponse\<rparr>]
      else prev)"

text \<open>
  The locals of the loop, with what React holds for it: \<open>queued\<close> counts the updaters
  of content events that React has not run yet, and \<open>renders\<close> says, for each content
  event still to come, whether React runs the queue as soon as the event has queued its
  updater (it does so at once when nothing else is pending, and otherwise when the
  function next waits) or leaves it for later.
\<close>

record stream_locals =
  buffer :: js_string
  fullResponse :: js_string
  queued :: nat
  renders :: "bool list"

definition start_locals :: "bool list \<Rightarrow> stream_locals" where
  "start_locals rs = \<lparr>buffer = [], fullResponse = [], queued = 0, renders = rs\<rparr>"

text \<open>
  React runs the queued updaters, one after the other: each finds the ref and the
  response as they are now.
\<close>

definition run_queued :: "chat_state \<times> stream_locals \<Rightarrow> chat_state \<times> stream_locals" where
  "run_queued s =
     (let (st, loc) = s
      in (st\<lparr>messages :=
               ((update_assistant (assistantMessageRef st) (fullResponse loc)) ^^ queued loc)
                 (messages st)\<rparr>,
          loc\<lparr>queued := 0\<rparr>))"

text \<open>The inner \<open>try\<close> block after \<open>JSON.parse\<close>: the new state, or what it throws.\<close>

fun handle_event ::
  "sse_event \<Rightarrow> chat_state \<times> stream_locals \<Rightarrow> js_error + chat_state \<times> stream_locals" where
  "handle_event (ContentEvent c) (st, loc) =
     (let full = fullResponse loc @ c;
          loc1 = loc\<lparr>fullResponse := full, queued := Suc (queued loc)\<rparr>
      in case renders loc of
           [] \<Rightarrow> Inr (st, loc1)
         | now # later \<Rightarrow>
             if now then Inr (run_queued (st, loc1\<lparr>renders := later\<rparr>))
             else Inr (st, loc1\<lparr>renders := later\<rparr>))"
| "handle_event (DoneEvent qid) (st, loc) =
     (if truthy qid
      then Inr (st\<lparr>quotationId := qid,
                   localStorage := (localStorage st)(js ''quotation_id'' \<mapsto> the qid)\<rparr>, loc)
      else Inr (st, loc))"
| "handle_event (ErrorEvent m) (st, loc) = Inl (Error m)"
| "handle_event OtherEvent (st, loc) = Inr (st, loc)"

definition try_line ::
  "(js_string \<Rightarrow> js_error + sse_event) \<Rightarrow> js_string \<Rightarrow> chat_state \<times> stream_locals
     \<Rightarrow> js_error + chat_state \<times> stream_locals" where
  "try_line parse line s =
     (case parse (drop 6 line) of
        Inl e \<Rightarrow> Inl e
      | Inr data \<Rightarrow> handle_event data s)"

text \<open>
  One line of the \<open>for\<close> loop. The \<open>catch\<close> of the inner \<open>try\<close> only writes to the
  console: whatever the block threw, the loop goes on from the state before the line.
\<close>

definition process_line ::
  "(js_string \<Rightarrow> js_error + sse_event) \<Rightarrow> chat_state \<times> stream_locals \<Rightarrow> js_string
     \<Rightarrow> chat_state \<times> stream_locals" where
  "process_line parse s line =
     (if startsWith line (js ''data: '')
      then (case try_line parse line s of Inl e \<Rightarrow> s | Inr s' \<Rightarrow> s')
      else s)"

text \<open>One chunk: the last piece of the split stays in the buffer.\<close>

definition process_chunk ::
  "(js_string \<Rightarrow> js_error + sse_event) \<Rightarrow> chat_state \<times> stream_locals \<Rightarrow> js_string
     \<Rightarrow> chat_state \<times> stream_locals" where
  "process_chunk parse s chunk =
     (let (st, loc) = s;
          buf = buffer loc @ chunk;
          lines = js_split newline buf;
          loc1 = loc\<lparr>buffer := last lines\<rparr>
      in foldl (process_line parse) (st, loc1) (butlast lines))"

text \<open>The \<open>while (true)\<close> loop: it ends when the reader reports \<open>done\<close> or a read rejects.\<close>

fun read_loop ::
  "(js_string \<Rightarrow> js_error + sse_event) \<Rightarrow> js_string list \<Rightarrow> stream_end
     \<Rightarrow> chat_state \<times> stream_locals \<Rightarrow> js_error option \<times> chat_state \<times> stream_locals" where
  "read_loop parse [] StreamDone s = (None, s)"
| "read_loop parse [] (StreamFailed e) s = (Some e, s)"
| "read_loop parse (chunk # chunks) fin s = read_loop parse chunks fin (process_chunk parse s chunk)"

subsection \<open>The two branches of the outer try, its catch and the whole function\<close>

definition error_bubble :: "js_error \<Rightarrow> message" where
  "error_bubble e =
     (let errorMessage =
        (if js_includes (error_message e) (js ''422'')
         then js ''Invalid request format. Please try again.''
         else if js_includes (error_message e) (js ''status'')
         then js ''Server error: '' @ error_message e
         else js ''Sorry, I encountered an error connecting to the server.'')
      in \<lparr>role = Assistant, content = errorMessage, msg_attachments = None\<rparr>)"

text \<open>
  The outer \<open>catch\<close>. It queues the updater that appends the error message, behind the
  updaters of content events still queued, and resets the ref at once; React then runs
  the queue, and the content updaters find the ref reset.
\<close>

definition catch_outer ::
  "js_error \<Rightarrow> chat_state \<times> stream_locals \<Rightarrow> chat_state \<times> stream_locals" where
  "catch_outer e s =
     (let (st, loc) = s;
          st1 = st\<lparr>assistantMessageRef := - 1\<rparr>;
          (st2, loc2) = run_queued (st1, loc)
      in (st2\<lparr>messages := messages st2 @ [error_bubble e]\<rparr>, loc2))"

text \<open>
  The attachment branch. \<open>sessionId\<close>, \<open>quotationId\<close> are the values the call closed
  over; the history was built before the user's message was added.
\<close>

definition multipart_request ::
  "environment \<Rightarrow> js_string \<Rightarrow> history_entry list \<Rightarrow> js_string option \<Rightarrow> js_string option
     \<Rightarrow> attachment list \<Rightarrow> http_request" where
  "multipart_request env currentInput hist sid qid currentAttachments =
     AxiosPostMultipart (apiUrl env @ js ''/api/v1/chat'')
       \<lparr>fd_message = currentInput, fd_history = hist,
        fd_session_id = (if truthy sid then sid else None),
        fd_quotation_id = (if truthy qid then qid else None),
        fd_files = map att_file currentAttachments\<rparr>"

definition stream_request ::
  "environment \<Rightarrow> js_string \<Rightarrow> history_entry list \<Rightarrow> js_string option \<Rightarrow> js_string option
     \<Rightarrow> http_request" where
  "stream_request env currentInput hist sid qid =
     FetchPostJson (apiUrl env @ js ''/api/v1/chat/stream'')
       \<lparr>jb_message = currentInput, jb_history = hist, jb_session_id = sid,
        jb_quotation_id = qid\<rparr>"

definition non_streaming :: "environment \<Rightarrow> chat_state \<Rightarrow> js_error option \<times> chat_state" where
  "non_streaming env st =
     (case axios_reply env of
        AxiosRejected e \<Rightarrow> (Some e, st)
      | AxiosResolved response qid \<Rightarrow>
          (let aiMsg = \<lparr>role = Assistant, content = response, msg_attachments = None\<rparr>;
               st1 = st\<lparr>messages := messages st @ [aiMsg]\<rparr>
           in if truthy qid
              then (None, st1\<lparr>quotationId := qid,
                     localStorage := (localStorage st1)(js ''quotation_id'' \<mapsto> the qid)\<rparr>)
              else (None, st1)))"

definition add_placeholder :: "chat_state \<Rightarrow> chat_state" where
  "add_placeholder st =
     (let st1 = st\<lparr>assistantMessageRef := int (length (messages st))\<rparr>
      in st1\<lparr>messages := messages st @
            [\<lparr>role = Assistant, content = [], msg_attachments = None\<rparr>]\<rparr>)"

text \<open>
  The streaming branch. The updaters that append a message read nothing that changes
  later and are applied where they are queued; the one that appends the placeholder also
  records its index, and React runs it at once, nothing being pending after the request.
\<close>

definition streaming ::
  "environment \<Rightarrow> chat_state \<Rightarrow> js_error option \<times> chat_state \<times> stream_locals" where
  "streaming env st =
     (case fetch_reply env of
        FetchRejected e \<Rightarrow> (Some e, st, start_locals [])
      | FetchResolved status body \<Rightarrow>
          if \<not> response_ok status
          then (Some (Error (js ''HTTP error! status: '' @ show_nat status)), st, start_locals [])
          else (let st1 = add_placeholder st
                in case body of
                     None \<Rightarrow> (None, st1, start_locals [])
                   | Some (chunks, fin) \<Rightarrow>
                       read_loop (JSON_parse env) chunks fin
                         (st1, start_locals (react_renders env))))"

definition blank_turn :: "chat_state \<Rightarrow> bool" where
  "blank_turn st = (\<not> truthy (Some (trim (input st))) \<and> length (attachments st) = 0)"

definition user_message :: "chat_state \<Rightarrow> message" where
  "user_message st =
     \<lparr>role = User, content = input st,
      msg_attachments = Some (map (\<lambda>att.
         \<lparr>att_type = att_type att, att_url = att_url att, att_name = att_name att\<rparr>)
         (attachments st))\<rparr>"

text \<open>
  \<open>sendMessage\<close>: the request it issued, if any, and the state it leaves once the
  promise has settled and React has run what was still queued.
\<close>

definition sendMessage :: "environment \<Rightarrow> chat_state \<Rightarrow> http_request option \<times> chat_state" where
  "sendMessage env st =
     (if blank_turn st then (None, st)
      else
        (let userMsg = user_message st;
             currentInput = input st;
             st1 = st\<lparr>input := []\<rparr>;
             currentAttachments = attachments st;
             st2 = st1\<lparr>attachments := []\<rparr>;
             hist = historyForRequest (messages st);
             st3 = st2\<lparr>messages := messages st2 @ [userMsg]\<rparr>;
             st4 = st3\<lparr>isLoading := True\<rparr>;
             (request, thrown, s5) =
               (if length currentAttachments > 0
                then (multipart_request env currentInput hist (sessionId st) (quotationId st)
                        currentAttachments,
                      case non_streaming env st4 of (thrown, st') \<Rightarrow>
                        (thrown, st', start_locals []))
                else (stream_request env currentInput hist (sessionId st) (quotationId st),
                      streaming env st4));
             s6 = (case thrown of None \<Rightarrow> s5 | Some e \<Rightarrow> catch_outer e s5);
             (st7, loc7) = run_queued s6
         in (Some request, st7\<lparr>isLoading := False\<rparr>)))"

text \<open>The \<open>disabled\<close> attribute of the Send button.\<close>

definition send_disabled :: "chat_state \<Rightarrow> bool" where
  "send_disabled st =
     (isLoading st \<or> (\<not> truthy (Some (trim (input st))) \<and> length (attachments st) = 0))"

subsection \<open>The events of a dispatch, as the protocol defines them\<close>

text \<open>
  The text a dispatch delivered is the concatenation of its chunks. Its data lines are
  the lines closed by a line feed that start with \<open>data: \<close>, in the order received;
  its events are the payloads of those lines that \<open>JSON.parse\<close> accepts. (Server-sent
  events close every event with a line feed; what follows the last line feed is an
  incomplete line.)
\<close>

definition data_lines :: "js_string \<Rightarrow> js_string list" where
  "data_lines received =
     filter (\<lambda>line. startsWith line (js ''data: '')) (butlast (js_split newline received))"

definition received_events ::
  "(js_string \<Rightarrow> js_error + sse_event) \<Rightarrow> js_string list \<Rightarrow> sse_event list" where
  "received_events parse chunks =
     List.map_filter (\<lambda>line. case parse (drop 6 line) of Inl e \<Rightarrow> None | Inr ev \<Rightarrow> Some ev)
       (data_lines (concat chunks))"

fun content_fragments :: "sse_event list \<Rightarrow> js_string list" where
  "content_fragments [] = []"
| "content_fragments (ContentEvent c # evs) = c # content_fragments evs"
| "content_fragments (ev # evs) = content_fragments evs"

text \<open>One event applied to the state: the inner \<open>try\<close> with its \<open>catch\<close>.\<close>

text \<open>The quotation ids that the done events of a dispatch carry, in order.\<close>

fun done_quotation_ids :: "sse_event list \<Rightarrow> js_string list" where
  "done_quotation_ids [] = []"
| "done_quotation_ids (DoneEvent qid # evs) =
     (if truthy qid then the qid # done_quotation_ids evs else done_quotation_ids evs)"
| "done_quotation_ids (ev # evs) = done_quotation_ids evs"

definition apply_event :: "chat_state \<times> stream_locals \<Rightarrow> sse_event \<Rightarrow> chat_state \<times> stream_locals" where
  "apply_event s ev = (case handle_event ev s of Inl e \<Rightarrow> s | Inr s' \<Rightarrow> s')"

fun stream_outcome :: "stream_end \<Rightarrow> js_error option" where
  "stream_outcome StreamDone = None"
| "stream_outcome (StreamFailed e) = Some e"

text \<open>The state in which \<open>sendMessage\<close> issues its request.\<close>

definition sending :: "chat_state \<Rightarrow> chat_state" where
  "sending st = st\<lparr>input := [], attachments := [],
                    messages := messages st @ [user_message st], isLoading := True\<rparr>"

text \<open>
  A click on New Chat while a reply is streaming: the button is not disabled and nothing
  aborts the dispatch, so the handler runs between two reads and the loop goes on.
  \<open>before\<close> are the chunks read before the click, \<open>after\<close> those read after it.
\<close>

definition new_chat_during_stream ::
  "environment \<Rightarrow> js_string list \<Rightarrow> js_string \<Rightarrow> js_string list \<Rightarrow> chat_state \<Rightarrow> chat_state" where
  "new_chat_during_stream env before rnd after st =
     (let s1 = foldl (process_chunk (JSON_parse env))
                 (add_placeholder (sending st), start_locals (react_renders env)) before;
          s2 = (handleNewChat rnd (fst s1), snd s1);
          (thrown, s3) = read_loop (JSON_parse env) after StreamDone s2;
          (st4, loc4) = run_queued s3
      in st4\<lparr>isLoading := False\<rparr>)"

fun request_history :: "http_request \<Rightarrow> history_entry list" where
  "request_history (AxiosPostMultipart url fd) = fd_history fd"
| "request_history (FetchPostJson url jb) = jb_history jb"

section \<open>DownloadButtons.tsx\<close>

datatype download_format = Pdf | Excel | Both

fun format_name :: "download_format \<Rightarrow> js_string" where
  "format_name Pdf = js ''pdf''"
| "format_name Excel = js ''excel''"
| "format_name Both = js ''both''"

record download_props =
  dl_quotationId :: js_string
  disabled :: bool

text \<open>
  \<open>handleDownload\<close>: the URL of the GET request it issues, if any. \<open>downloading\<close> is
  the component's state, the format being fetched or \<open>null\<close>.
\<close>

definition handleDownload ::
  "js_string \<Rightarrow> download_props \<Rightarrow> download_format option \<Rightarrow> download_format \<Rightarrow> js_string option" where
  "handleDownload api props downloading fmt =
     (if disabled props \<or> downloading \<noteq> None then None
      else Some (api @ js ''/api/v1/quotations/'' @ dl_quotationId props
                 @ js ''/download?format='' @ format_name fmt))"

section \<open>The places that render DownloadButtons\<close>

text \<open>
  ChatInterface.tsx, the quotation banner:
  \<open>quotationId && (... <DownloadButtons quotationId={quotationId} />)\<close>.
\<close>

definition chat_download_buttons :: "chat_state \<Rightarrow> download_props option" where
  "chat_download_buttons st =
     (if truthy (quotationId st)
      then Some \<lparr>dl_quotationId = the (quotationId st), disabled = False\<rparr>
      else None)"

text \<open>
  quotations/[id]/page.tsx: the state of the page (\<open>quotation\<close> is kept as whether it is
  loaded, \<open>status\<close> as the status string of the last answer polled) and its render,
  with the two early returns.
\<close>

record page_state =
  page_quotationId :: js_string
  quotation_loaded :: bool
  status :: "js_string option"
  loading :: bool
  error :: js_string

definition page_download_buttons :: "page_state \<Rightarrow> download_props option" where
  "page_download_buttons pg =
     (if loading pg \<and> \<not> quotation_loaded pg then None
      else if error pg \<noteq> [] \<and> \<not> quotation_loaded pg then None
      else if status pg = Some (js ''completed'')
      then Some \<lparr>dl_quotationId = page_quotationId pg, disabled = False\<rparr>
      else None)"

text \<open>
  The property "download controls are offered only for a completed quotation", over
  the status the backend holds for each quotation id.
\<close>

definition offered_only_when_completed ::
  "(js_string \<Rightarrow> js_string option) \<Rightarrow> download_props option \<Rightarrow> bool" where
  "offered_only_when_completed status_of controls =
     (case controls of
        None \<Rightarrow> True
      | Some props \<Rightarrow> status_of (dl_quotationId props) = Some (js ''completed''))"

section \<open>language.ts\<close>

text \<open>
  The product \<open>text.length * 0.3\<close> is a multiplication of IEEE 754 doubles, rounded
  to nearest with ties to even. The double written \<open>0.3\<close> is
  \<open>5404319552844595 / 2 ^ 54\<close>; a length is an integer below \<open>2 ^ 53\<close> and so a double
  itself. The exact product is a multiple of \<open>2 ^ -54\<close>, and the doubles of that range
  are the multiples of \<open>2 ^ -54\<close> whose numerator, a natural number here, has at most 53
  significant bits after its leading zeros are dropped.
\<close>

fun bit_length :: "nat \<Rightarrow> nat" where
  "bit_length n = (if n = 0 then 0 else Suc (bit_length (n div 2)))"

declare bit_length.simps [simp del]

text \<open>The nearest number with at most 53 significant bits, ties to the even one.\<close>

definition round53 :: "nat \<Rightarrow> nat" where
  "round53 a =
     (let s = bit_length a - 53; q = a div 2 ^ s; r = a mod 2 ^ s
      in if 2 * r < 2 ^ s \<or> (2 * r = 2 ^ s \<and> even q) then q * 2 ^ s else (q + 1) * 2 ^ s)"

text \<open>The double \<open>n * 0.3\<close>, as its numerator over \<open>2 ^ 54\<close>.\<close>

definition times_0_3 :: "nat \<Rightarrow> nat" where
  "times_0_3 n = round53 (n * 5404319552844595)"

text \<open>\<open>count > n * 0.3\<close> for an integer count, which is a double itself.\<close>

definition greater_than_times_0_3 :: "nat \<Rightarrow> nat \<Rightarrow> bool" where
  "greater_than_times_0_3 count n = (times_0_3 n < count * 2 ^ 54)"

datatype language = Ar | En

text \<open>The classes of code units U+0600 to U+06FF and of \<open>[a-zA-Z]\<close>.\<close>

definition isArabic :: "code_unit \<Rightarrow> bool" where
  "isArabic c = (0x0600 \<le> c \<and> c \<le> 0x06FF)"

definition isEnglishLetter :: "code_unit \<Rightarrow> bool" where
  "isEnglishLetter c = ((0x61 \<le> c \<and> c \<le> 0x7A) \<or> (0x41 \<le> c \<and> c \<le> 0x5A))"

definition detectLanguage :: "js_string \<Rightarrow> language" where
  "detectLanguage text =
     (let hasArabic = list_ex isArabic text;
          arabicCount = length (filter isArabic text);
          englishCount = length (filter isEnglishLetter text)
      in if hasArabic \<and> greater_than_times_0_3 arabicCount (length text) then Ar else En)"

definition isRTL :: "js_string \<Rightarrow> bool" where
  "isRTL text = (detectLanguage text = Ar)"

text \<open>Ten code units, three of them Arabic letters; and one with four.\<close>

definition sample_mixed_text :: js_string where
  "sample_mixed_text = [0x0628, 0x064A, 0x062A] @ js '' villa''  @ [0x31]"

definition sample_arabic_text :: js_string where
  "sample_arabic_text = [0x0645, 0x0646, 0x0632, 0x0644] @ js '' villa''"

section \<open>The quotation state machine\<close>

text \<open>
  Modelled from the spec: the quotation state machine of the backend (section 4.1 of the
  specification), whose code is not among the sources. A quotation keeps its status, the
  output of each stage once recorded, and the reason of a failure; time stamps are left
  out.
\<close>

datatype quotation_status =
  Pending | Processing | Data_collection | Cost_calculation | Completed | Failed

record ('x, 'p) quotation =
  q_status :: quotation_status
  extracted_data :: "'x option"
  cost_breakdown :: "'p option"
  failure_reason :: "js_string option"

datatype sm_error = NotFoundError | InvalidTransitionError

type_synonym ('x, 'p) store = "js_string \<rightharpoonup> ('x, 'p) quotation"

text \<open>
  Modelled from the spec: a mutating call looks the quotation up (\<open>NotFoundError\<close> if the
  id is unknown), and either fails, leaving the store as it is, or commits one value of
  the quotation after the other. The result lists the stores committed, in order.
\<close>

definition transition ::
  "js_string \<Rightarrow> (('x, 'p) quotation \<Rightarrow> sm_error + ('x, 'p) quotation list) \<Rightarrow> ('x, 'p) store
     \<Rightarrow> sm_error + ('x, 'p) store list" where
  "transition qid f db =
     (case db qid of
        None \<Rightarrow> Inl NotFoundError
      | Some q \<Rightarrow>
          (case f q of
             Inl e \<Rightarrow> Inl e
           | Inr written \<Rightarrow> Inr (map (\<lambda>q'. db(qid \<mapsto> q')) written)))"

text \<open>
  Modelled from the spec: \<open>begin_processing(id)\<close>: pending to processing;
  \<open>InvalidTransitionError\<close> if not currently pending.
\<close>

definition begin_processing ::
  "js_string \<Rightarrow> ('x, 'p) store \<Rightarrow> sm_error + ('x, 'p) store list" where
  "begin_processing qid =
     transition qid (\<lambda>q.
       if q_status q = Pending then Inr [q\<lparr>q_status := Processing\<rparr>]
       else Inl InvalidTransitionError)"

text \<open>
  Modelled from the spec: \<open>record_extraction(id, extracted_data, confidence_score)\<close>
  moves to \<open>data_collection\<close> and stores the data; \<open>InvalidTransitionError\<close> if the
  quotation is past this stage or terminal (of two calls on one id the second fails,
  scenario F), and from pending, since no transition may be skipped. The argument is the
  output of the stage, data and score together.
\<close>

definition record_extraction ::
  "js_string \<Rightarrow> 'x \<Rightarrow> ('x, 'p) store \<Rightarrow> sm_error + ('x, 'p) store list" where
  "record_extraction qid x =
     transition qid (\<lambda>q.
       if q_status q = Processing
       then Inr [q\<lparr>q_status := Data_collection, extracted_data := Some x\<rparr>]
       else Inl InvalidTransitionError)"

text \<open>
  Modelled from the spec: \<open>record_pricing(id, cost_breakdown, total_cost)\<close> moves to
  \<open>cost_calculation\<close>, then to \<open>completed\<close>; the same failure policy. The argument is
  the output of the stage, breakdown and total together.
\<close>

definition record_pricing ::
  "js_string \<Rightarrow> 'p \<Rightarrow> ('x, 'p) store \<Rightarrow> sm_error + ('x, 'p) store list" where
  "record_pricing qid p =
     transition qid (\<lambda>q.
       if q_status q = Data_collection
       then Inr [q\<lparr>q_status := Cost_calculation, cost_breakdown := Some p\<rparr>,
                 q\<lparr>q_status := Completed, cost_breakdown := Some p\<rparr>]
       else Inl InvalidTransitionError)"

text \<open>
  Modelled from the spec: \<open>mark_failed(id, reason)\<close> moves to \<open>failed\<close> and stores the
  reason, from the states from which the graph of section 4.1 reaches \<open>failed\<close>:
  processing, data collection and cost calculation. On a failed quotation it changes
  nothing (idempotent). It is refused on a completed one, which is terminal, and on a
  pending one: the graph, which the property test of section 8 repeats edge by edge,
  has no edge from pending to failed, and it bounds this operation as it bounds
  \<open>record_extraction\<close>.
\<close>

definition mark_failed ::
  "js_string \<Rightarrow> js_string \<Rightarrow> ('x, 'p) store \<Rightarrow> sm_error + ('x, 'p) store list" where
  "mark_failed qid reason =
     transition qid (\<lambda>q.
       if q_status q = Failed then Inr []
       else if q_status q = Completed \<or> q_status q = Pending then Inl InvalidTransitionError
       else Inr [q\<lparr>q_status := Failed, failure_reason := Some reason\<rparr>])"

datatype ('x, 'p) operation =
  Begin_processing js_string
| Record_extraction js_string 'x
| Record_pricing js_string 'p
| Mark_failed js_string js_string

fun perform :: "('x, 'p) operation \<Rightarrow> ('x, 'p) store \<Rightarrow> sm_error + ('x, 'p) store list" where
  "perform (Begin_processing qid) db = begin_processing qid db"
| "perform (Record_extraction qid x) db = record_extraction qid x db"
| "perform (Record_pricing qid p) db = record_pricing qid p db"
| "perform (Mark_failed qid reason) db = mark_failed qid reason db"

text \<open>
  The stores committed by a sequence of calls, in order; a call that fails commits
  nothing and the next one finds the store unchanged.
\<close>

fun commits :: "('x, 'p) store \<Rightarrow> ('x, 'p) operation list \<Rightarrow> ('x, 'p) store list" where
  "commits db [] = []"
| "commits db (call # calls) =
     (case perform call db of
        Inl e \<Rightarrow> commits db calls
      | Inr written \<Rightarrow> written @ commits (last (db # written)) calls)"

text \<open>The statuses one quotation id goes through, from the initial store on.\<close>

definition status_history ::
  "('x, 'p) store \<Rightarrow> ('x, 'p) operation list \<Rightarrow> js_string \<Rightarrow> quotation_status option list" where
  "status_history db calls qid = map (\<lambda>s. map_option q_status (s qid)) (db # commits db calls)"

text \<open>The seven edges of the graph.\<close>

definition graph_edge :: "quotation_status \<Rightarrow> quotation_status \<Rightarrow> bool" where
  "graph_edge a b =
     ((a, b) \<in> set [(Pending, Processing), (Processing, Data_collection), (Processing, Failed),
                      (Data_collection, Cost_calculation), (Data_collection, Failed),
                      (Cost_calculation, Completed), (Cost_calculation, Failed)])"

text \<open>One step of a history: the status stays, or it moves along an edge.\<close>

fun along :: "(quotation_status \<Rightarrow> quotation_status \<Rightarrow> bool)
    \<Rightarrow> quotation_status option \<Rightarrow> quotation_status option \<Rightarrow> bool" where
  "along edge (Some a) (Some b) = (a = b \<or> edge a b)"
| "along edge None None = True"
| "along edge a b = False"

definition terminal :: "quotation_status \<Rightarrow> bool" where
  "terminal s = (s = Completed \<or> s = Failed)"

text \<open>A store with one pending quotation; the outputs of the stages are kept as text.\<close>

definition sample_db :: "(js_string, js_string) store" where
  "sample_db =
     [js ''quot-1'' \<mapsto> \<lparr>q_status = Pending, extracted_data = None, cost_breakdown = None,
                          failure_reason = None\<rparr>]"

section \<open>Auxiliary notions of the proofs and sample data\<close>

text \<open>
  The invariant of the read loop: the ref holds the index of the placeholder, the
  messages are those of the start but for the content of the placeholder, and when
  nothing is queued that content is the response accumulated so far.
\<close>

definition placeholder_ok :: "message list \<Rightarrow> nat \<Rightarrow> chat_state \<times> stream_locals \<Rightarrow> bool" where
  "placeholder_ok base idx s =
     (case s of (st, loc) \<Rightarrow>
        assistantMessageRef st = int idx \<and> idx < length base \<and> role (base ! idx) = Assistant
        \<and> messages st = base[idx := (base ! idx)\<lparr>content := content (messages st ! idx)\<rparr>]
        \<and> (0 < queued loc \<or> content (messages st ! idx) = fullResponse loc))"

text \<open>
  \<open>JSON.parse\<close> on the payloads of the sample streams below, read through
  \<open>data.type\<close>; a SyntaxError on anything else.
\<close>

definition sample_parse :: "js_string \<Rightarrow> js_error + sse_event" where
  \<open>sample_parse payload =
     (if payload = js ''{"type":"content","content":"Hel"}'' then Inr (ContentEvent (js ''Hel''))
      else if payload = js ''{"type":"content","content":"lo"}'' then Inr (ContentEvent (js ''lo''))
      else if payload = js ''{"type":"done","quotation_id":"quot-1"}''
      then Inr (DoneEvent (Some (js ''quot-1'')))
      else if payload = js ''{"type":"error","content":"model overloaded"}''
      then Inr (ErrorEvent (js ''model overloaded''))
      else Inl (Error (js ''SyntaxError: Unexpected token'')))\<close>

text \<open>
  React runs the updater of the first content event as it is queued and leaves that of
  the second for later.
\<close>

definition sample_env :: "js_string list \<Rightarrow> environment" where
  "sample_env chunks =
     \<lparr>NEXT_PUBLIC_API_URL = None,
      axios_reply = AxiosResolved (js ''Noted.'') None,
      fetch_reply = FetchResolved 200 (Some (chunks, StreamDone)),
      JSON_parse = sample_parse,
      react_renders = [True, False]\<rparr>"

text \<open>The same, but the read after the last chunk rejects.\<close>

definition sample_rejecting_env :: "js_string list \<Rightarrow> environment" where
  "sample_rejecting_env chunks =
     (sample_env chunks)
       \<lparr>fetch_reply := FetchResolved 200 (Some (chunks, StreamFailed (Error (js ''network error''))))\<rparr>"

text \<open>A fresh page in which the user has typed a message.\<close>

definition sample_state :: chat_state where
  "sample_state = (page_load (js ''k3j9x2m1qzw'') Map.empty)\<lparr>input := js ''Estimate a villa''\<rparr>"

text \<open>
  A reply in two fragments and a done event, in two chunks; the second chunk begins in
  the middle of a line.
\<close>

definition sample_first_chunk :: js_string where
  \<open>sample_first_chunk =
     js ''data: {"type":"content","content":"Hel"}'' @ [newline, newline] @ js ''data: {"type":"con''\<close>

definition sample_last_chunk :: js_string where
  \<open>sample_last_chunk =
     js ''tent","content":"lo"}'' @ [newline, newline] @
     js ''data: {"type":"done","quotation_id":"quot-1"}'' @ [newline, newline]\<close>

definition sample_stream :: "js_string list" where
  "sample_stream = [sample_first_chunk, sample_last_chunk]"

text \<open>A fragment, then an error event closing the stream.\<close>

definition sample_failed_stream :: "js_string list" where
  \<open>sample_failed_stream =
     [js ''data: {"type":"content","content":"Hel"}'' @ [newline, newline],
      js ''data: {"type":"error","content":"model overloaded"}'' @ [newline, newline]]\<close>

text \<open>The same page with only blanks typed.\<close>

definition blank_state :: chat_state where
  "blank_state = sample_state\<lparr>input := js ''   ''\<rparr>"

text \<open>The sample page with a picture attached; the state in which the read loop starts; a status page of a completed quotation.\<close>

definition sample_attachment :: attachment where
  "sample_attachment =
     \<lparr>att_type = AttImage, att_url = js ''blob:plan'', att_name = js ''plan.png'', att_file = 1\<rparr>"

definition sample_attachment_state :: chat_state where
  "sample_attachment_state = sample_state\<lparr>attachments := [sample_attachment]\<rparr>"

definition sample_streaming_state :: chat_state where
  "sample_streaming_state = add_placeholder (sending sample_state)"

definition sample_page :: page_state where
  "sample_page =
     \<lparr>page_quotationId = js ''quot-1'', quotation_loaded = True,
      status = Some (js ''completed''), loading = False, error = []\<rparr>"

text \<open>
  A run of the pipeline with calls out of turn, and a store whose quotation is completed.
\<close>

definition sample_calls :: "(js_string, js_string) operation list" where
  "sample_calls =
     [Begin_processing (js ''quot-1''), Record_pricing (js ''quot-1'') (js ''early''),
      Record_extraction (js ''quot-1'') (js ''villa, 300 sqm''),
      Record_pricing (js ''quot-1'') (js ''EGP 4,500,000''),
      Mark_failed (js ''quot-1'') (js ''late'')]"

definition sample_done_db :: "(js_string, js_string) store" where
  "sample_done_db =
     [js ''quot-1'' \<mapsto> \<lparr>q_status = Completed, extracted_data = Some (js ''villa, 300 sqm''),
                          cost_breakdown = Some (js ''EGP 4,500,000''), failure_reason = None\<rparr>]"

section \<open>Splitting into lines\<close>

lemma js_split_ne: "js_split sep s \<noteq> []"
  by (induction s) (auto split: list.splits)

lemma js_split_append:
  "js_split sep (a @ b) = butlast (js_split sep a) @ js_split sep (last (js_split sep a) @ b)"
  by (induction a) (auto split: list.splits simp: js_split_ne)

lemma js_split_no_sep: "sep \<notin> set s \<Longrightarrow> js_split sep s = [s]"
  by (induction s) auto

lemma js_split_last_no_sep: "sep \<notin> set (last (js_split sep s))"
  by (induction s) (auto split: list.splits simp: js_split_ne)

lemma butlast_js_split_append:
  "butlast (js_split sep (a @ b)) =
     butlast (js_split sep a) @ butlast (js_split sep (last (js_split sep a) @ b))"
  by (subst js_split_append) (simp add: butlast_append js_split_ne)

lemma last_js_split_append:
  "last (js_split sep (a @ b)) = last (js_split sep (last (js_split sep a) @ b))"
  by (subst js_split_append) (simp add: js_split_ne)

section \<open>React running the queued updaters\<close>

lemma update_assistant_twice:
  "update_assistant idx full (update_assistant idx full' msgs) = update_assistant idx full msgs"
  by (auto simp: update_assistant_def nat_less_iff)

lemma funpow_update_assistant:
  "((update_assistant idx full) ^^ n) msgs =
     (if n = 0 then msgs else update_assistant idx full msgs)"
  by (induction n) (simp_all add: update_assistant_twice)

lemma run_queued_eq:
  "run_queued (st, loc) =
     (st\<lparr>messages := (if queued loc = 0 then messages st
                        else update_assistant (assistantMessageRef st) (fullResponse loc)
                               (messages st))\<rparr>,
      loc\<lparr>queued := 0\<rparr>)"
  by (simp add: run_queued_def funpow_update_assistant)

lemma run_queued_buffer:
  "run_queued (st, loc\<lparr>buffer := b\<rparr>) =
     (case run_queued (st, loc) of (st', loc') \<Rightarrow> (st', loc'\<lparr>buffer := b\<rparr>))"
  by (simp add: run_queued_eq)

section \<open>The read loop processes the complete lines of the text, in order\<close>

lemma handle_event_buffer:
  "handle_event ev (st, loc\<lparr>buffer := b\<rparr>) =
     map_sum id (\<lambda>(st', loc'). (st', loc'\<lparr>buffer := b\<rparr>)) (handle_event ev (st, loc))"
  by (cases ev) (simp_all add: Let_def run_queued_eq split: list.splits)

lemma process_line_buffer:
  "process_line parse (st, loc\<lparr>buffer := b\<rparr>) l =
     (case process_line parse (st, loc) l of (st', loc') \<Rightarrow> (st', loc'\<lparr>buffer := b\<rparr>))"
  by (auto simp: process_line_def try_line_def handle_event_buffer split: sum.splits)

lemma foldl_process_line_buffer:
  "foldl (process_line parse) (st, loc\<lparr>buffer := b\<rparr>) ls =
     (case foldl (process_line parse) (st, loc) ls of (st', loc') \<Rightarrow> (st', loc'\<lparr>buffer := b\<rparr>))"
proof (induction ls arbitrary: st loc)
  case Nil
  then show ?case by simp
next
  case (Cons l ls)
  obtain st1 loc1 where s1: "process_line parse (st, loc) l = (st1, loc1)"
    by (cases "process_line parse (st, loc) l")
  show ?case
    by (simp add: process_line_buffer s1 Cons.IH)
qed

lemma handle_event_keeps_buffer:
  "handle_event ev (st, loc) = Inr (st', loc') \<Longrightarrow> buffer loc' = buffer loc"
  by (cases ev) (auto simp: Let_def run_queued_eq split: list.splits if_splits)

lemma process_line_keeps_buffer:
  "process_line parse (st, loc) l = (st', loc') \<Longrightarrow> buffer loc' = buffer loc"
  by (auto simp: process_line_def try_line_def split: if_splits sum.splits
      dest: handle_event_keeps_buffer)

lemma foldl_process_line_keeps_buffer:
  "foldl (process_line parse) (st, loc) ls = (st', loc') \<Longrightarrow> buffer loc' = buffer loc"
proof (induction ls arbitrary: st loc)
  case Nil
  then show ?case by simp
next
  case (Cons l ls)
  obtain st1 loc1 where s1: "process_line parse (st, loc) l = (st1, loc1)"
    by (cases "process_line parse (st, loc) l")
  from Cons.prems s1 have "buffer loc' = buffer loc1"
    using Cons.IH [of st1 loc1] by simp
  with process_line_keeps_buffer [OF s1] show ?case by simp
qed

lemma read_loop_lines:
  "newline \<notin> set (buffer loc) \<Longrightarrow>
   read_loop parse chunks fin (st, loc) =
     (stream_outcome fin,
      case foldl (process_line parse) (st, loc)
             (butlast (js_split newline (buffer loc @ concat chunks))) of
        (st', loc') \<Rightarrow>
          (st', loc'\<lparr>buffer := last (js_split newline (buffer loc @ concat chunks))\<rparr>))"
proof (induction chunks arbitrary: st loc)
  case Nil
  then show ?case
    by (cases fin) (simp_all add: js_split_no_sep)
next
  case (Cons chunk chunks)
  let ?lines = "js_split newline (buffer loc @ chunk)"
  let ?rest = "js_split newline (last ?lines @ concat chunks)"
  obtain st1 loc1 where s1:
    "foldl (process_line parse) (st, loc) (butlast ?lines) = (st1, loc1)"
    by (cases "foldl (process_line parse) (st, loc) (butlast ?lines)")
  obtain st2 loc2 where s2:
    "foldl (process_line parse) (st1, loc1) (butlast ?rest) = (st2, loc2)"
    by (cases "foldl (process_line parse) (st1, loc1) (butlast ?rest)")
  have pc: "process_chunk parse (st, loc) chunk = (st1, loc1\<lparr>buffer := last ?lines\<rparr>)"
    by (simp add: process_chunk_def Let_def foldl_process_line_buffer s1)
  have nb: "newline \<notin> set (buffer (loc1\<lparr>buffer := last ?lines\<rparr>))"
    by (simp add: js_split_last_no_sep)
  have whole: "foldl (process_line parse) (st, loc)
      (butlast (js_split newline (buffer loc @ chunk @ concat chunks))) = (st2, loc2)"
    using butlast_js_split_append [of newline "buffer loc @ chunk" "concat chunks"]
    by (simp add: s1 s2)
  have l: "last (js_split newline (buffer loc @ chunk @ concat chunks)) = last ?rest"
    using last_js_split_append [of newline "buffer loc @ chunk" "concat chunks"] by simp
  have "read_loop parse (chunk # chunks) fin (st, loc) =
          read_loop parse chunks fin (st1, loc1\<lparr>buffer := last ?lines\<rparr>)"
    by (simp add: pc)
  also have "\<dots> = (stream_outcome fin, (st2, loc2\<lparr>buffer := last ?rest\<rparr>))"
    using Cons.IH [OF nb] by (simp add: foldl_process_line_buffer s2)
  finally show ?case
    by (simp add: whole l)
qed

lemma foldl_process_line_events:
  "foldl (process_line parse) s ls =
     foldl apply_event s
       (List.map_filter (\<lambda>line. case parse (drop 6 line) of Inl e \<Rightarrow> None | Inr ev \<Rightarrow> Some ev)
          (filter (\<lambda>line. startsWith line (js ''data: '')) ls))"
proof (induction ls arbitrary: s)
  case Nil
  then show ?case by simp
next
  case (Cons l ls)
  show ?case
  proof (cases "startsWith l (js ''data: '')")
    case False
    then have "process_line parse s l = s"
      by (simp add: process_line_def)
    with False show ?thesis by (simp add: Cons.IH)
  next
    case True
    show ?thesis
    proof (cases "parse (drop 6 l)")
      case (Inl e)
      with True have "process_line parse s l = s"
        by (simp add: process_line_def try_line_def)
      with True Inl show ?thesis
        by (simp add: Cons.IH)
    next
      case (Inr ev)
      with True have "process_line parse s l = apply_event s ev"
        by (simp add: process_line_def try_line_def apply_event_def)
      with True Inr show ?thesis
        by (simp add: Cons.IH)
    qed
  qed
qed

lemma read_loop_events:
  "read_loop parse chunks fin (st, start_locals rs) =
     (stream_outcome fin,
      case foldl apply_event (st, start_locals rs) (received_events parse chunks) of
        (st', loc') \<Rightarrow> (st', loc'\<lparr>buffer := last (js_split newline (concat chunks))\<rparr>))"
proof -
  have "newline \<notin> set (buffer (start_locals rs))"
    by (simp add: start_locals_def)
  from read_loop_lines [OF this] show ?thesis
    by (simp add: foldl_process_line_events received_events_def data_lines_def start_locals_def)
qed

section \<open>The events of a dispatch reach one message\<close>

lemma foldl_apply_event_fullResponse:
  "fullResponse (snd (foldl apply_event s evs)) =
     fullResponse (snd s) @ concat (content_fragments evs)"
proof (induction evs arbitrary: s)
  case Nil
  then show ?case by simp
next
  case (Cons ev evs)
  obtain st loc where s: "s = (st, loc)"
    by (cases s)
  have "fullResponse (snd (apply_event s ev)) =
      fullResponse (snd s) @ concat (content_fragments [ev])"
    unfolding s
    by (cases ev) (simp_all add: apply_event_def Let_def run_queued_eq split: list.splits)
  then show ?case
    by (cases ev) (simp_all add: Cons.IH)
qed

lemma apply_event_placeholder_ok:
  assumes "placeholder_ok base idx s"
  shows "placeholder_ok base idx (apply_event s ev)"
proof -
  obtain st loc where s: "s = (st, loc)"
    by (cases s)
  from assms have m: "messages st = base[idx := (base ! idx)\<lparr>content := content (messages st ! idx)\<rparr>]"
    and r: "assistantMessageRef st = int idx" and i: "idx < length base"
    and a: "role (base ! idx) = Assistant"
    by (simp_all add: s placeholder_ok_def)
  from m i have l: "length (messages st) = length base"
    by (metis length_list_update)
  from m i a have ra: "role (messages st ! idx) = Assistant"
    by (metis message.select_convs(1) message.surjective message.update_convs(2)
        nth_list_update_eq)
  have u: "update_assistant (int idx) full (messages st) =
      base[idx := (base ! idx)\<lparr>content := full\<rparr>]" for full
  proof -
    have "update_assistant (int idx) full (messages st) =
        (messages st)[idx := (messages st ! idx)\<lparr>content := full\<rparr>]"
      using i l ra by (simp add: update_assistant_def)
    also have "\<dots> = base[idx := (base ! idx)\<lparr>content := full\<rparr>]"
      by (subst (1 2) m) (use i in simp)
    finally show ?thesis .
  qed
  show ?thesis
  proof (cases ev)
    case (ContentEvent c)
    with assms i a r show ?thesis
      unfolding s
      by (auto simp: apply_event_def placeholder_ok_def Let_def run_queued_eq u
          split: list.splits)
  next
    case (DoneEvent qid)
    with assms show ?thesis
      unfolding s by (simp add: apply_event_def placeholder_ok_def)
  next
    case (ErrorEvent e)
    with assms show ?thesis
      unfolding s by (simp add: apply_event_def)
  next
    case OtherEvent
    with assms show ?thesis
      unfolding s by (simp add: apply_event_def)
  qed
qed

lemma foldl_apply_event_placeholder_ok:
  "placeholder_ok base idx s \<Longrightarrow> placeholder_ok base idx (foldl apply_event s evs)"
  by (induction evs arbitrary: s) (simp_all add: apply_event_placeholder_ok)

lemma placeholder_ok_settled:
  assumes "placeholder_ok base idx (st, loc)"
  shows "messages (fst (run_queued (st, loc))) =
     base[idx := (base ! idx)\<lparr>content := fullResponse loc\<rparr>]"
proof -
  from assms have m: "messages st = base[idx := (base ! idx)\<lparr>content := content (messages st ! idx)\<rparr>]"
    and r: "assistantMessageRef st = int idx" and i: "idx < length base"
    and a: "role (base ! idx) = Assistant"
    and q: "0 < queued loc \<or> content (messages st ! idx) = fullResponse loc"
    by (simp_all add: placeholder_ok_def)
  from m i have l: "length (messages st) = length base"
    by (metis length_list_update)
  from m i a have ra: "role (messages st ! idx) = Assistant"
    by (metis message.select_convs(1) message.surjective message.update_convs(2)
        nth_list_update_eq)
  have "update_assistant (int idx) (fullResponse loc) (messages st) =
      (messages st)[idx := (messages st ! idx)\<lparr>content := fullResponse loc\<rparr>]"
    using i l ra by (simp add: update_assistant_def)
  also have "\<dots> = base[idx := (base ! idx)\<lparr>content := fullResponse loc\<rparr>]"
    by (subst (1 2) m) (use i in simp)
  finally have u: "update_assistant (int idx) (fullResponse loc) (messages st) =
      base[idx := (base ! idx)\<lparr>content := fullResponse loc\<rparr>]" .
  show ?thesis
  proof (cases "queued loc = 0")
    case True
    with q have "content (messages st ! idx) = fullResponse loc" by simp
    with m True show ?thesis
      by (simp add: run_queued_eq)
  next
    case False
    then show ?thesis
      by (simp add: run_queued_eq r u)
  qed
qed

lemma placeholder_ok_add_placeholder:
  "placeholder_ok
     (messages st @ [\<lparr>role = Assistant, content = [], msg_attachments = None\<rparr>])
     (length (messages st)) (add_placeholder st, start_locals rs)"
  by (simp add: placeholder_ok_def add_placeholder_def start_locals_def Let_def)

lemma foldl_apply_event_quotationId:
  "quotationId (fst (foldl apply_event s evs)) =
     (case done_quotation_ids evs of [] \<Rightarrow> quotationId (fst s) | ids \<Rightarrow> Some (last ids))"
proof (induction evs arbitrary: s)
  case Nil
  then show ?case by simp
next
  case (Cons ev evs)
  obtain st loc where s: "s = (st, loc)"
    by (cases s)
  show ?case
  proof (cases ev)
    case (ContentEvent c)
    then have "quotationId (fst (apply_event s ev)) = quotationId (fst s)"
      unfolding s by (simp add: apply_event_def Let_def run_queued_eq split: list.splits)
    with ContentEvent show ?thesis by (simp add: Cons.IH split: list.splits)
  next
    case (DoneEvent qid)
    show ?thesis
    proof (cases "truthy qid")
      case True
      then have "quotationId (fst (apply_event s ev)) = Some (the qid)"
        unfolding s DoneEvent by (cases qid) (simp_all add: apply_event_def)
      with DoneEvent True show ?thesis
        by (simp add: Cons.IH split: list.splits)
    next
      case False
      then have "apply_event s ev = s"
        unfolding s DoneEvent by (simp add: apply_event_def)
      with DoneEvent False show ?thesis by (simp add: Cons.IH)
    qed
  next
    case (ErrorEvent e)
    then have "apply_event s ev = s"
      unfolding s by (simp add: apply_event_def)
    with ErrorEvent show ?thesis by (simp add: Cons.IH)
  next
    case OtherEvent
    then have "apply_event s ev = s"
      unfolding s by (simp add: apply_event_def)
    with OtherEvent show ?thesis by (simp add: Cons.IH)
  qed
qed

section \<open>sendMessage, unfolded\<close>

lemma trim_empty_iff: "trim s = [] \<longleftrightarrow> list_all isWhiteSpace s"
proof -
  have "trim s = [] \<longleftrightarrow> (\<forall>c\<in>set (dropWhile isWhiteSpace s). isWhiteSpace c)"
    by (simp add: trim_def)
  also have "\<dots> \<longleftrightarrow> dropWhile isWhiteSpace s = []"
    by (metis hd_dropWhile list.set_sel(1) empty_iff list.set(1))
  also have "\<dots> \<longleftrightarrow> list_all isWhiteSpace s"
    by (simp add: list_all_iff)
  finally show ?thesis .
qed

lemma blank_turn_iff:
  "blank_turn st \<longleftrightarrow> list_all isWhiteSpace (input st) \<and> attachments st = []"
  by (simp add: blank_turn_def trim_empty_iff)

lemma sendMessage_unfold:
  "\<not> blank_turn st \<Longrightarrow>
   sendMessage env st =
     (let (request, thrown, s5) =
        (if attachments st \<noteq> []
         then (multipart_request env (input st) (historyForRequest (messages st))
                 (sessionId st) (quotationId st) (attachments st),
               case non_streaming env (sending st) of (thrown, st') \<Rightarrow>
                 (thrown, st', start_locals []))
         else (stream_request env (input st) (historyForRequest (messages st))
                 (sessionId st) (quotationId st),
               streaming env (sending st)))
      in (Some request,
          (fst (run_queued (case thrown of None \<Rightarrow> s5 | Some e \<Rightarrow> catch_outer e s5)))
            \<lparr>isLoading := False\<rparr>))"
  by (simp add: sendMessage_def Let_def sending_def split: prod.splits)

lemma sendMessage_request:
  "\<not> blank_turn st \<Longrightarrow>
   fst (sendMessage env st) =
     Some (if attachments st \<noteq> []
           then multipart_request env (input st) (historyForRequest (messages st))
                  (sessionId st) (quotationId st) (attachments st)
           else stream_request env (input st) (historyForRequest (messages st))
                  (sessionId st) (quotationId st))"
  by (simp add: sendMessage_unfold Let_def split: prod.splits)

lemma historyForRequest_eq:
  "historyForRequest msgs = map (\<lambda>m. \<lparr>h_role = role m, h_content = content m\<rparr>) msgs"
proof -
  have "filter (\<lambda>msg. role msg = User \<or> role msg = Assistant) msgs = msgs"
    by (rule filter_True) (metis role.exhaust)
  then show ?thesis
    by (simp add: historyForRequest_def content_string_def)
qed

lemma streaming_events:
  assumes "fetch_reply env = FetchResolved code (Some (chunks, fin))"
    and "response_ok code"
  shows "streaming env st =
     (stream_outcome fin,
      case foldl apply_event (add_placeholder st, start_locals (react_renders env))
             (received_events (JSON_parse env) chunks) of
        (st', loc') \<Rightarrow> (st', loc'\<lparr>buffer := last (js_split newline (concat chunks))\<rparr>))"
  using assms by (simp add: streaming_def Let_def read_loop_events)

text \<open>The state in which the events of a dispatch have been handled.\<close>

lemma sendMessage_stream_done:
  assumes "\<not> blank_turn st" and "attachments st = []"
    and "fetch_reply env = FetchResolved code (Some (chunks, StreamDone))"
    and "response_ok code"
  shows "snd (sendMessage env st) =
     (fst (run_queued
        (foldl apply_event (add_placeholder (sending st), start_locals (react_renders env))
           (received_events (JSON_parse env) chunks))))
       \<lparr>isLoading := False\<rparr>"
proof -
  obtain st' loc' where f:
    "foldl apply_event (add_placeholder (sending st), start_locals (react_renders env))
       (received_events (JSON_parse env) chunks) = (st', loc')"
    by (cases "foldl apply_event (add_placeholder (sending st), start_locals (react_renders env))
       (received_events (JSON_parse env) chunks)")
  show ?thesis
    using assms(1,2)
    by (simp add: sendMessage_unfold streaming_events [OF assms(3,4)] f run_queued_buffer
        split: prod.splits)
qed

lemma sendMessage_stream_failed:
  assumes "\<not> blank_turn st" and "attachments st = []"
    and "fetch_reply env = FetchResolved code (Some (chunks, StreamFailed e))"
    and "response_ok code"
  shows "snd (sendMessage env st) =
     (fst (catch_outer e
        (foldl apply_event (add_placeholder (sending st), start_locals (react_renders env))
           (received_events (JSON_parse env) chunks))))
       \<lparr>isLoading := False\<rparr>"
proof -
  obtain st' loc' where f:
    "foldl apply_event (add_placeholder (sending st), start_locals (react_renders env))
       (received_events (JSON_parse env) chunks) = (st', loc')"
    by (cases "foldl apply_event (add_placeholder (sending st), start_locals (react_renders env))
       (received_events (JSON_parse env) chunks)")
  show ?thesis
    using assms(1,2)
    by (simp add: sendMessage_unfold streaming_events [OF assms(3,4)] f run_queued_eq
        catch_outer_def Let_def split: prod.splits)
qed

lemma sendMessage_stream_messages:
  assumes "\<not> blank_turn st" and "attachments st = []"
    and "fetch_reply env = FetchResolved code (Some (chunks, StreamDone))"
    and "response_ok code"
  shows "messages (snd (sendMessage env st)) =
     messages st @
       [user_message st,
        \<lparr>role = Assistant,
         content = concat (content_fragments (received_events (JSON_parse env) chunks)),
         msg_attachments = None\<rparr>]"
proof -
  let ?s0 = "(add_placeholder (sending st), start_locals (react_renders env))"
  let ?evs = "received_events (JSON_parse env) chunks"
  obtain st' loc' where f: "foldl apply_event ?s0 ?evs = (st', loc')"
    by (cases "foldl apply_event ?s0 ?evs")
  have ok: "placeholder_ok
      (messages (sending st) @ [\<lparr>role = Assistant, content = [], msg_attachments = None\<rparr>])
      (length (messages (sending st))) (st', loc')"
    using foldl_apply_event_placeholder_ok [OF placeholder_ok_add_placeholder, of "sending st"
        "react_renders env" ?evs]
    by (simp add: f)
  have full: "fullResponse loc' = concat (content_fragments ?evs)"
    using foldl_apply_event_fullResponse [of ?s0 ?evs] unfolding f
    by (simp add: start_locals_def)
  show ?thesis
    by (simp add: sendMessage_stream_done [OF assms] f placeholder_ok_settled [OF ok] full)
       (simp add: sending_def)
qed

lemma sendMessage_stream_quotationId:
  assumes "\<not> blank_turn st" and "attachments st = []"
    and "fetch_reply env = FetchResolved code (Some (chunks, StreamDone))"
    and "response_ok code"
  shows "quotationId (snd (sendMessage env st)) =
     (case done_quotation_ids (received_events (JSON_parse env) chunks) of
        [] \<Rightarrow> quotationId st
      | ids \<Rightarrow> Some (last ids))"
proof -
  let ?s0 = "(add_placeholder (sending st), start_locals (react_renders env))"
  let ?evs = "received_events (JSON_parse env) chunks"
  obtain st' loc' where f: "foldl apply_event ?s0 ?evs = (st', loc')"
    by (cases "foldl apply_event ?s0 ?evs")
  have q0: "quotationId (fst ?s0) = quotationId st"
    by (simp add: add_placeholder_def sending_def Let_def)
  have "quotationId st' =
      (case done_quotation_ids ?evs of [] \<Rightarrow> quotationId st | ids \<Rightarrow> Some (last ids))"
    using foldl_apply_event_quotationId [of ?s0 ?evs] unfolding f q0
    by simp
  then show ?thesis
    by (simp add: sendMessage_stream_done [OF assms] f run_queued_eq)
qed

lemma sendMessage_multipart:
  assumes "attachments st \<noteq> []" and "axios_reply env = AxiosResolved response qid"
  shows "messages (snd (sendMessage env st)) =
           messages st @ [user_message st,
             \<lparr>role = Assistant, content = response, msg_attachments = None\<rparr>]"
    and "quotationId (snd (sendMessage env st)) = (if truthy qid then qid else quotationId st)"
proof -
  from assms(1) have nb: "\<not> blank_turn st"
    by (simp add: blank_turn_def)
  show "messages (snd (sendMessage env st)) =
           messages st @ [user_message st,
             \<lparr>role = Assistant, content = response, msg_attachments = None\<rparr>]"
    using assms
    by (simp add: sendMessage_unfold [OF nb] non_streaming_def Let_def sending_def
        run_queued_eq start_locals_def)
  show "quotationId (snd (sendMessage env st)) = (if truthy qid then qid else quotationId st)"
    using assms
    by (simp add: sendMessage_unfold [OF nb] non_streaming_def Let_def sending_def
        run_queued_eq start_locals_def)
qed

lemma read_failure_appends_error_bubble:
  assumes "\<not> blank_turn st" and "attachments st = []"
    and "fetch_reply env = FetchResolved code (Some (chunks, StreamFailed e))"
    and "response_ok code"
  shows "last (messages (snd (sendMessage env st))) = error_bubble e"
  by (simp add: sendMessage_stream_failed [OF assms] catch_outer_def Let_def run_queued_eq
      split: prod.splits)

section \<open>The sample data, evaluated\<close>

lemma sample_events:
  "received_events sample_parse sample_stream =
     [ContentEvent (js ''Hel''), ContentEvent (js ''lo''), DoneEvent (Some (js ''quot-1''))]"
  by (simp add: received_events_def data_lines_def sample_stream_def sample_first_chunk_def
      sample_last_chunk_def sample_parse_def js_def newline_def startsWith_def)

lemma sample_failed_events:
  "received_events sample_parse sample_failed_stream =
     [ContentEvent (js ''Hel''), ErrorEvent (js ''model overloaded'')]"
  by (simp add: received_events_def data_lines_def sample_failed_stream_def sample_parse_def
      js_def newline_def startsWith_def)

lemma sample_not_blank: "\<not> blank_turn sample_state"
  by (simp add: blank_turn_def sample_state_def trim_def js_def isWhiteSpace_def)

lemma sample_no_attachments: "attachments sample_state = []"
  by (simp add: sample_state_def page_load_def session_init_def initial_state_def Let_def)

lemma sample_messages: "messages sample_state = [greeting]"
  by (simp add: sample_state_def page_load_def session_init_def initial_state_def Let_def)

lemma sample_user_message:
  "user_message sample_state =
     \<lparr>role = User, content = js ''Estimate a villa'', msg_attachments = Some []\<rparr>"
  by (simp add: user_message_def sample_state_def page_load_def session_init_def
      initial_state_def Let_def)

lemma sample_fetch:
  "fetch_reply (sample_env chunks) = FetchResolved 200 (Some (chunks, StreamDone))"
  by (simp add: sample_env_def)

lemma sample_rejecting_fetch:
  "fetch_reply (sample_rejecting_env chunks) =
     FetchResolved 200 (Some (chunks, StreamFailed (Error (js ''network error''))))"
  by (simp add: sample_rejecting_env_def)

lemma sample_ok: "response_ok 200"
  by (simp add: response_ok_def)

lemma sample_JSON_parse:
  "JSON_parse (sample_env chunks) = sample_parse"
  "JSON_parse (sample_rejecting_env chunks) = sample_parse"
  by (simp_all add: sample_env_def sample_rejecting_env_def)

lemma sample_renders:
  "react_renders (sample_env chunks) = [True, False]"
  "react_renders (sample_rejecting_env chunks) = [True, False]"
  by (simp_all add: sample_env_def sample_rejecting_env_def)

lemma sample_sessionId: "sessionId sample_state = Some (js ''session-k3j9x2m1qzw'')"
  by (simp add: sample_state_def page_load_def session_init_def initial_state_def Let_def
      generateSessionId_def js_def)

lemma sample_quotationId: "quotationId sample_state = None"
  by (simp add: sample_state_def page_load_def session_init_def initial_state_def Let_def)

lemma sample_input: "input sample_state = js ''Estimate a villa''"
  by (simp add: sample_state_def)

lemma sample_apiUrl: "apiUrl (sample_env chunks) = js ''http://localhost:8001''"
  by (simp add: apiUrl_def sample_env_def)

lemma sample_request:
  "fst (sendMessage (sample_env sample_stream) sample_state) =
     Some (FetchPostJson (js ''http://localhost:8001/api/v1/chat/stream'')
       \<lparr>jb_message = js ''Estimate a villa'',
        jb_history = [\<lparr>h_role = Assistant, h_content = content greeting\<rparr>],
        jb_session_id = Some (js ''session-k3j9x2m1qzw''), jb_quotation_id = None\<rparr>)"
  by (simp add: sendMessage_request sample_not_blank sample_no_attachments stream_request_def
      sample_apiUrl sample_input sample_messages sample_sessionId sample_quotationId
      historyForRequest_eq)
     (simp add: js_def greeting_def)

lemma sample_attachment_not_empty: "attachments sample_attachment_state \<noteq> []"
  by (simp add: sample_attachment_state_def)

lemma sample_attachment_request:
  "fst (sendMessage (sample_env sample_stream) sample_attachment_state) =
     Some (AxiosPostMultipart (js ''http://localhost:8001/api/v1/chat'')
       \<lparr>fd_message = js ''Estimate a villa'',
        fd_history = [\<lparr>h_role = Assistant, h_content = content greeting\<rparr>],
        fd_session_id = Some (js ''session-k3j9x2m1qzw''), fd_quotation_id = None,
        fd_files = [1]\<rparr>)"
proof -
  have nb: "\<not> blank_turn sample_attachment_state"
    by (simp add: blank_turn_def sample_attachment_state_def)
  show ?thesis
    by (subst sendMessage_request [OF nb])
       (simp add: multipart_request_def sample_attachment_state_def
        sample_apiUrl sample_input sample_messages sample_sessionId sample_quotationId
        historyForRequest_eq sample_attachment_def js_def greeting_def)
qed

lemma sample_stream_messages:
  "messages (snd (sendMessage (sample_env sample_stream) sample_state)) =
     [greeting,
      \<lparr>role = User, content = js ''Estimate a villa'', msg_attachments = Some []\<rparr>,
      \<lparr>role = Assistant, content = js ''Hello'', msg_attachments = None\<rparr>]"
proof -
  have h: "js ''Hel'' @ js ''lo'' = js ''Hello''"
    by (simp add: js_def)
  show ?thesis
    by (simp add: sendMessage_stream_messages
          [OF sample_not_blank sample_no_attachments sample_fetch sample_ok]
        sample_JSON_parse sample_messages sample_user_message h sample_events)
qed

lemma sample_stream_quotationId:
  "quotationId (snd (sendMessage (sample_env sample_stream) sample_state)) = Some (js ''quot-1'')"
proof -
  have t: "js ''quot-1'' \<noteq> []"
    by (simp add: js_def)
  show ?thesis
    by (simp add: sendMessage_stream_quotationId
          [OF sample_not_blank sample_no_attachments sample_fetch sample_ok]
        sample_JSON_parse sample_events t)
qed

text \<open>
  A read that rejects after the two fragments: React had run the updater of the first,
  the catch resets the ref, and the updater of the second is dropped.
\<close>

lemma rejected_read_drops_queued_fragment:
  "messages (snd (sendMessage (sample_rejecting_env sample_stream) sample_state)) =
     [greeting,
      \<lparr>role = User, content = js ''Estimate a villa'', msg_attachments = Some []\<rparr>,
      \<lparr>role = Assistant, content = js ''Hel'', msg_attachments = None\<rparr>,
      \<lparr>role = Assistant, content = js ''Sorry, I encountered an error connecting to the server.'',
       msg_attachments = None\<rparr>]"
proof -
  have b: "error_bubble (Error (js ''network error'')) =
      \<lparr>role = Assistant, content = js ''Sorry, I encountered an error connecting to the server.'',
       msg_attachments = None\<rparr>"
    by (simp add: error_bubble_def js_def startsWith_def)
  show ?thesis
    by (simp add: sendMessage_stream_failed
          [OF sample_not_blank sample_no_attachments sample_rejecting_fetch sample_ok]
        sample_JSON_parse sample_renders sample_events apply_event_def Let_def run_queued_eq
        catch_outer_def add_placeholder_def sending_def start_locals_def update_assistant_def
        sample_messages sample_user_message b)
qed

section \<open>The statuses of a quotation\<close>

lemma along_refl: "along edge a a"
  by (cases a) simp_all

lemma successively_join:
  "successively P (x # xs) \<Longrightarrow> successively P (last (x # xs) # ys) \<Longrightarrow>
   successively P (x # xs @ ys)"
  by (induction xs arbitrary: x) (auto simp: successively_Cons)

lemma transition_other:
  assumes "transition qid0 f db = Inr written" and "qid \<noteq> qid0"
  shows "\<forall>s \<in> set written. s qid = db qid"
  using assms by (auto simp: transition_def split: option.splits sum.splits)

lemma successively_same:
  "\<forall>s \<in> set xs. f s = f x \<Longrightarrow> successively (\<lambda>a b. along edge (f a) (f b)) (x # xs)"
  by (induction xs arbitrary: x) (auto simp: successively_Cons along_refl)

lemma perform_statuses:
  assumes "perform call db = Inr written"
  shows "successively (\<lambda>a b. along graph_edge (map_option q_status (a qid))
                             (map_option q_status (b qid))) (db # written)"
proof -
  obtain qid0 where q0: "qid0 = (case call of Begin_processing i \<Rightarrow> i
      | Record_extraction i x \<Rightarrow> i | Record_pricing i p \<Rightarrow> i | Mark_failed i r \<Rightarrow> i)"
    by simp
  show ?thesis
  proof (cases "qid = qid0")
    case False
    have "\<exists>f. perform call db = transition qid0 f db"
      using q0
      by (cases call)
         (auto simp: begin_processing_def record_extraction_def record_pricing_def
            mark_failed_def)
    then obtain f where "transition qid0 f db = Inr written"
      using assms by auto
    from transition_other [OF this False]
    have "\<forall>s \<in> set written. map_option q_status (s qid) = map_option q_status (db qid)"
      by simp
    then show ?thesis
      by (rule successively_same)
  next
    case True
    with q0 assms show ?thesis
      by (cases call; cases "db qid"; cases "q_status (the (db qid))")
         (auto simp: begin_processing_def record_extraction_def record_pricing_def
            mark_failed_def transition_def graph_edge_def
            split: if_splits)
  qed
qed

lemma commits_statuses:
  "successively (\<lambda>a b. along graph_edge (map_option q_status (a qid))
                          (map_option q_status (b qid))) (db # commits db calls)"
proof (induction calls arbitrary: db)
  case Nil
  then show ?case by simp
next
  case (Cons call calls)
  show ?case
  proof (cases "perform call db")
    case (Inl e)
    then show ?thesis using Cons.IH [of db] by simp
  next
    case (Inr written)
    from perform_statuses [OF Inr] Cons.IH [of "last (db # written)"]
    show ?thesis
      using Inr by (simp add: successively_join del: last.simps)
  qed
qed

lemma terminal_stays:
  "successively (along graph_edge) (Some t # xs) \<Longrightarrow> terminal t \<Longrightarrow>
   set (Some t # xs) = {Some t}"
proof (induction xs)
  case Nil
  then show ?case by simp
next
  case (Cons x xs)
  from Cons.prems have "x = Some t"
    by (cases x) (auto simp: terminal_def graph_edge_def)
  with Cons show ?case by auto
qed

text \<open>
  Claim C1. For every store, every sequence of calls of \<open>begin_processing\<close>,
  \<open>record_extraction\<close>, \<open>record_pricing\<close> and \<open>mark_failed\<close>, and every quotation
  id, each status the quotation takes is the one before or follows it along one of the
  seven edges of the graph; and a quotation that is completed or failed keeps its
  status whatever is called.
\<close>

theorem status_moves_along_the_graph:
  "successively (along graph_edge) (status_history db calls qid)
   \<and> (\<forall>q. db qid = Some q \<and> terminal (q_status q) \<longrightarrow>
         set (status_history db calls qid) = {Some (q_status q)})"
proof -
  have s: "successively (along graph_edge) (status_history db calls qid)"
    unfolding status_history_def successively_map
    by (rule commits_statuses)
  moreover have "set (status_history db calls qid) = {Some (q_status q)}"
    if "db qid = Some q" and "terminal (q_status q)" for q
  proof -
    from that(1) have "status_history db calls qid =
        Some (q_status q) # map (\<lambda>s. map_option q_status (s qid)) (commits db calls)"
      by (simp add: status_history_def)
    with s that(2) show ?thesis
      using terminal_stays by metis
  qed
  ultimately show ?thesis by blast
qed

theorem status_moves_along_the_graph_witness:
  "status_history sample_db sample_calls (js ''quot-1'') =
     [Some Pending, Some Processing, Some Data_collection, Some Cost_calculation,
      Some Completed]
   \<and> successively (along graph_edge) (status_history sample_db sample_calls (js ''quot-1''))
   \<and> sample_done_db (js ''quot-1'') =
       Some \<lparr>q_status = Completed, extracted_data = Some (js ''villa, 300 sqm''),
             cost_breakdown = Some (js ''EGP 4,500,000''), failure_reason = None\<rparr>
   \<and> terminal Completed
   \<and> set (status_history sample_done_db sample_calls (js ''quot-1'')) = {Some Completed}"
proof -
  have h: "status_history sample_db sample_calls (js ''quot-1'') =
     [Some Pending, Some Processing, Some Data_collection, Some Cost_calculation,
      Some Completed]"
    by (simp add: status_history_def sample_db_def sample_calls_def begin_processing_def
        record_extraction_def record_pricing_def mark_failed_def transition_def)
  have d: "sample_done_db (js ''quot-1'') =
       Some \<lparr>q_status = Completed, extracted_data = Some (js ''villa, 300 sqm''),
             cost_breakdown = Some (js ''EGP 4,500,000''), failure_reason = None\<rparr>"
    by (simp add: sample_done_db_def)
  have t: "terminal Completed"
    by (simp add: terminal_def)
  note g = status_moves_along_the_graph [of sample_db sample_calls "js ''quot-1''"]
  note g' = status_moves_along_the_graph [of sample_done_db sample_calls "js ''quot-1''"]
  from g have s: "successively (along graph_edge)
      (status_history sample_db sample_calls (js ''quot-1''))"
    by simp
  from g' d t have e:
    "set (status_history sample_done_db sample_calls (js ''quot-1'')) = {Some Completed}"
    by simp
  from h s d t e show ?thesis
    by simp
qed

section \<open>The streamed reply\<close>



section \<open>An error event in the stream\<close>

text \<open>
  Claim C3, evaluated on a stream that delivers one fragment and then an error event:
  the \<open>throw\<close> of the error branch is caught by the \<open>catch\<close> of the inner \<open>try\<close>,
  which only logs. The dispatch ends with the fragment rendered, no error message
  among the messages, and the loading indicator off.
\<close>

theorem error_event_is_swallowed:
  "messages (snd (sendMessage (sample_env sample_failed_stream) sample_state)) =
     [greeting,
      \<lparr>role = User, content = js ''Estimate a villa'', msg_attachments = Some []\<rparr>,
      \<lparr>role = Assistant, content = js ''Hel'', msg_attachments = None\<rparr>]
   \<and> isLoading (snd (sendMessage (sample_env sample_failed_stream) sample_state)) = False"
proof -
  have "isLoading (snd (sendMessage (sample_env sample_failed_stream) sample_state)) = False"
    by (simp add: sendMessage_stream_done
          [OF sample_not_blank sample_no_attachments sample_fetch sample_ok])
  then show ?thesis
    by (simp add: sendMessage_stream_messages
          [OF sample_not_blank sample_no_attachments sample_fetch sample_ok]
        sample_JSON_parse sample_failed_events sample_messages sample_user_message)
qed

section \<open>The two modes of a turn\<close>

theorem blank_turn_sends_nothing:
  "attachments blank_state = []
   \<and> fst (sendMessage (sample_env sample_stream) blank_state) = None"
  by (simp add: sendMessage_def blank_turn_def blank_state_def sample_no_attachments trim_def
      js_def isWhiteSpace_def)

text \<open>
  Claim C4, as the code has it. A call with at least one attachment sends one multipart
  POST to \<open>/api/v1/chat\<close> carrying the files, and when that request resolves the reply
  is the \<open>response\<close> of the one object returned, with its \<open>quotation_id\<close> kept when it
  has one. A call without attachments whose input is not blank sends a JSON POST to
  \<open>/api/v1/chat/stream\<close>, and when the stream is read to its end the reply is the
  concatenation of the fragments of the content events, in the order received, and the
  quotation id is the last one a done event carried, if any did. A call without
  attachments and with a blank input sends nothing.
\<close>

theorem attachments_choose_the_mode:
  "(attachments st \<noteq> [] \<longrightarrow>
      fst (sendMessage env st) =
        Some (AxiosPostMultipart (apiUrl env @ js ''/api/v1/chat'')
          \<lparr>fd_message = input st, fd_history = historyForRequest (messages st),
           fd_session_id = (if truthy (sessionId st) then sessionId st else None),
           fd_quotation_id = (if truthy (quotationId st) then quotationId st else None),
           fd_files = map att_file (attachments st)\<rparr>)
      \<and> (\<forall>response qid. axios_reply env = AxiosResolved response qid \<longrightarrow>
            messages (snd (sendMessage env st)) =
              messages st @ [user_message st,
                \<lparr>role = Assistant, content = response, msg_attachments = None\<rparr>]
            \<and> quotationId (snd (sendMessage env st)) =
                (if truthy qid then qid else quotationId st)))
   \<and> (attachments st = [] \<and> \<not> list_all isWhiteSpace (input st) \<longrightarrow>
      fst (sendMessage env st) =
        Some (FetchPostJson (apiUrl env @ js ''/api/v1/chat/stream'')
          \<lparr>jb_message = input st, jb_history = historyForRequest (messages st),
           jb_session_id = sessionId st, jb_quotation_id = quotationId st\<rparr>)
      \<and> (\<forall>code chunks.
            fetch_reply env = FetchResolved code (Some (chunks, StreamDone))
            \<and> response_ok code \<longrightarrow>
            messages (snd (sendMessage env st)) =
              messages st @ [user_message st,
                \<lparr>role = Assistant,
                 content = concat (content_fragments (received_events (JSON_parse env) chunks)),
                 msg_attachments = None\<rparr>]
            \<and> quotationId (snd (sendMessage env st)) =
                (case done_quotation_ids (received_events (JSON_parse env) chunks) of
                   [] \<Rightarrow> quotationId st
                 | ids \<Rightarrow> Some (last ids))))
   \<and> (attachments st = [] \<and> list_all isWhiteSpace (input st) \<longrightarrow>
      fst (sendMessage env st) = None)"
proof (intro conjI impI allI)
  assume a: "attachments st \<noteq> []"
  then have nb: "\<not> blank_turn st"
    by (simp add: blank_turn_def)
  show "fst (sendMessage env st) =
        Some (AxiosPostMultipart (apiUrl env @ js ''/api/v1/chat'')
          \<lparr>fd_message = input st, fd_history = historyForRequest (messages st),
           fd_session_id = (if truthy (sessionId st) then sessionId st else None),
           fd_quotation_id = (if truthy (quotationId st) then quotationId st else None),
           fd_files = map att_file (attachments st)\<rparr>)"
    using a by (simp add: sendMessage_request [OF nb] multipart_request_def)
next
  fix response qid
  assume "attachments st \<noteq> []" and "axios_reply env = AxiosResolved response qid"
  then show "messages (snd (sendMessage env st)) =
              messages st @ [user_message st,
                \<lparr>role = Assistant, content = response, msg_attachments = None\<rparr>]"
    and "quotationId (snd (sendMessage env st)) = (if truthy qid then qid else quotationId st)"
    by (rule sendMessage_multipart)+
next
  assume a: "attachments st = [] \<and> \<not> list_all isWhiteSpace (input st)"
  then have nb: "\<not> blank_turn st"
    by (simp add: blank_turn_iff)
  show "fst (sendMessage env st) =
        Some (FetchPostJson (apiUrl env @ js ''/api/v1/chat/stream'')
          \<lparr>jb_message = input st, jb_history = historyForRequest (messages st),
           jb_session_id = sessionId st, jb_quotation_id = quotationId st\<rparr>)"
    using a by (simp add: sendMessage_request [OF nb] stream_request_def)
next
  fix code chunks
  assume a: "attachments st = [] \<and> \<not> list_all isWhiteSpace (input st)"
    and f: "fetch_reply env = FetchResolved code (Some (chunks, StreamDone)) \<and> response_ok code"
  from a have nb: "\<not> blank_turn st" and na: "attachments st = []"
    by (simp_all add: blank_turn_iff)
  from f have f1: "fetch_reply env = FetchResolved code (Some (chunks, StreamDone))"
    and f2: "response_ok code"
    by simp_all
  show "messages (snd (sendMessage env st)) =
              messages st @ [user_message st,
                \<lparr>role = Assistant,
                 content = concat (content_fragments (received_events (JSON_parse env) chunks)),
                 msg_attachments = None\<rparr>]"
    by (rule sendMessage_stream_messages [OF nb na f1 f2])
  show "quotationId (snd (sendMessage env st)) =
                (case done_quotation_ids (received_events (JSON_parse env) chunks) of
                   [] \<Rightarrow> quotationId st
                 | ids \<Rightarrow> Some (last ids))"
    by (rule sendMessage_stream_quotationId [OF nb na f1 f2])
next
  assume "attachments st = [] \<and> list_all isWhiteSpace (input st)"
  then have "blank_turn st"
    by (simp add: blank_turn_iff)
  then show "fst (sendMessage env st) = None"
    by (simp add: sendMessage_def)
qed

theorem attachments_choose_the_mode_witness:
  "attachments sample_attachment_state \<noteq> []
   \<and> fst (sendMessage (sample_env sample_stream) sample_attachment_state) =
       Some (AxiosPostMultipart (js ''http://localhost:8001/api/v1/chat'')
         \<lparr>fd_message = js ''Estimate a villa'',
          fd_history = [\<lparr>h_role = Assistant, h_content = content greeting\<rparr>],
          fd_session_id = Some (js ''session-k3j9x2m1qzw''), fd_quotation_id = None,
          fd_files = [1]\<rparr>)
   \<and> messages (snd (sendMessage (sample_env sample_stream) sample_attachment_state)) =
       [greeting,
        \<lparr>role = User, content = js ''Estimate a villa'',
         msg_attachments = Some [\<lparr>att_type = AttImage, att_url = js ''blob:plan'',
                                   att_name = js ''plan.png''\<rparr>]\<rparr>,
        \<lparr>role = Assistant, content = js ''Noted.'', msg_attachments = None\<rparr>]
   \<and> attachments sample_state = [] \<and> \<not> list_all isWhiteSpace (input sample_state)
   \<and> fst (sendMessage (sample_env sample_stream) sample_state) =
       Some (FetchPostJson (js ''http://localhost:8001/api/v1/chat/stream'')
         \<lparr>jb_message = js ''Estimate a villa'',
          jb_history = [\<lparr>h_role = Assistant, h_content = content greeting\<rparr>],
          jb_session_id = Some (js ''session-k3j9x2m1qzw''), jb_quotation_id = None\<rparr>)
   \<and> messages (snd (sendMessage (sample_env sample_stream) sample_state)) =
       [greeting,
        \<lparr>role = User, content = js ''Estimate a villa'', msg_attachments = Some []\<rparr>,
        \<lparr>role = Assistant, content = js ''Hello'', msg_attachments = None\<rparr>]
   \<and> quotationId (snd (sendMessage (sample_env sample_stream) sample_state)) =
       Some (js ''quot-1'')
   \<and> list_all isWhiteSpace (input blank_state) \<and> attachments blank_state = []
   \<and> fst (sendMessage (sample_env sample_stream) blank_state) = None"
proof -
  have ax: "axios_reply (sample_env sample_stream) = AxiosResolved (js ''Noted.'') None"
    by (simp add: sample_env_def)
  have nw: "\<not> list_all isWhiteSpace (input sample_state)"
    using sample_not_blank sample_no_attachments by (simp add: blank_turn_iff)
  have um: "user_message sample_attachment_state =
      \<lparr>role = User, content = js ''Estimate a villa'',
       msg_attachments = Some [\<lparr>att_type = AttImage, att_url = js ''blob:plan'',
                                 att_name = js ''plan.png''\<rparr>]\<rparr>"
    by (simp add: user_message_def sample_attachment_state_def sample_attachment_def
        sample_input)
  have ms: "messages sample_attachment_state = [greeting]"
    by (simp add: sample_attachment_state_def sample_messages)
  have bw: "list_all isWhiteSpace (input blank_state)"
    by (simp add: blank_state_def js_def isWhiteSpace_def)
  have ba: "attachments blank_state = []"
    by (simp add: blank_state_def sample_no_attachments)
  note g1 = attachments_choose_the_mode [of sample_attachment_state "sample_env sample_stream"]
  note g2 = attachments_choose_the_mode [of sample_state "sample_env sample_stream"]
  note g3 = attachments_choose_the_mode [of blank_state "sample_env sample_stream"]
  from g1 ax have m1:
    "messages (snd (sendMessage (sample_env sample_stream) sample_attachment_state)) =
       [greeting,
        \<lparr>role = User, content = js ''Estimate a villa'',
         msg_attachments = Some [\<lparr>att_type = AttImage, att_url = js ''blob:plan'',
                                   att_name = js ''plan.png''\<rparr>]\<rparr>,
        \<lparr>role = Assistant, content = js ''Noted.'', msg_attachments = None\<rparr>]"
    by (simp add: sample_attachment_not_empty um ms)
  from g3 bw ba have b: "fst (sendMessage (sample_env sample_stream) blank_state) = None"
    by simp
  from g2 have True by simp
  with m1 b show ?thesis
    by (simp add: sample_attachment_not_empty nw sample_no_attachments bw ba
        sample_attachment_request sample_request sample_stream_messages
        sample_stream_quotationId)
qed

section \<open>Fresh sessions\<close>

text \<open>
  After a page load, and after New Chat from any state, the session id is the one just
  generated and the quotation id is null. The state after a page load does not depend
  on what local storage held (a \<open>quotation_id\<close> stored there is not read), and New Chat
  removes that key.
\<close>

lemma fresh_session_resets:
  "quotationId (page_load rnd ls) = None
   \<and> sessionId (page_load rnd ls) = Some (generateSessionId rnd)
   \<and> page_load rnd ls =
       (page_load rnd Map.empty)
         \<lparr>localStorage := ls(js ''chat_session_id'' \<mapsto> generateSessionId rnd)\<rparr>
   \<and> quotationId (handleNewChat rnd st) = None
   \<and> sessionId (handleNewChat rnd st) = Some (generateSessionId rnd)
   \<and> localStorage (handleNewChat rnd st) (js ''quotation_id'') = None"
  by (simp add: page_load_def session_init_def initial_state_def handleNewChat_def Let_def js_def)

text \<open>
  Claim C5, evaluated on a click on New Chat between the two chunks of the sample
  stream. The handler resets the quotation id, but the dispatch of the old session is
  still open: its done event sets \<open>quot-1\<close> as the quotation id of the new session and
  stores it, so the fresh session does inherit the quotation of the previous one.
\<close>

theorem new_chat_inherits_open_dispatch:
  "sessionId (new_chat_during_stream (sample_env sample_stream) [sample_first_chunk]
       (js ''n7w5e2s4s1d'') [sample_last_chunk] sample_state) = Some (js ''session-n7w5e2s4s1d'')
   \<and> quotationId (new_chat_during_stream (sample_env sample_stream) [sample_first_chunk]
       (js ''n7w5e2s4s1d'') [sample_last_chunk] sample_state) = Some (js ''quot-1'')
   \<and> localStorage (new_chat_during_stream (sample_env sample_stream) [sample_first_chunk]
       (js ''n7w5e2s4s1d'') [sample_last_chunk] sample_state) (js ''quotation_id'') =
       Some (js ''quot-1'')
   \<and> messages (new_chat_during_stream (sample_env sample_stream) [sample_first_chunk]
       (js ''n7w5e2s4s1d'') [sample_last_chunk] sample_state) = [greeting]"
proof -
  have l1: \<open>js_split newline sample_first_chunk =
      [js ''data: {"type":"content","content":"Hel"}'', [], js ''data: {"type":"con'']\<close>
    by (simp add: sample_first_chunk_def js_def newline_def)
  have l2: \<open>js_split newline (js ''data: {"type":"con'' @ sample_last_chunk) =
      [js ''data: {"type":"content","content":"lo"}'', [],
       js ''data: {"type":"done","quotation_id":"quot-1"}'', [], []]\<close>
    by (simp add: sample_last_chunk_def js_def newline_def)
  have p1: \<open>process_line sample_parse s (js ''data: {"type":"content","content":"Hel"}'') =
      apply_event s (ContentEvent (js ''Hel''))\<close> for s
    by (simp add: process_line_def try_line_def apply_event_def sample_parse_def startsWith_def
        js_def)
  have p2: \<open>process_line sample_parse s (js ''data: {"type":"content","content":"lo"}'') =
      apply_event s (ContentEvent (js ''lo''))\<close> for s
    by (simp add: process_line_def try_line_def apply_event_def sample_parse_def startsWith_def
        js_def)
  have p3: \<open>process_line sample_parse s (js ''data: {"type":"done","quotation_id":"quot-1"}'') =
      apply_event s (DoneEvent (Some (js ''quot-1'')))\<close> for s
    by (simp add: process_line_def try_line_def apply_event_def sample_parse_def startsWith_def
        js_def)
  have p0: "process_line sample_parse s [] = s" for s
    by (simp add: process_line_def startsWith_def js_def)
  have t: "js ''quot-1'' \<noteq> []"
    by (simp add: js_def)
  have k: "js ''quotation_id'' \<noteq> js ''chat_messages''"
    by (simp add: js_def)
  have g: "generateSessionId (js ''n7w5e2s4s1d'') = js ''session-n7w5e2s4s1d''"
    by (simp add: generateSessionId_def js_def)
  show ?thesis
    by (simp add: new_chat_during_stream_def Let_def process_chunk_def sample_JSON_parse
        sample_renders start_locals_def l1 l2 p0 p1 p2 p3 apply_event_def run_queued_eq
        handleNewChat_def add_placeholder_def sending_def update_assistant_def t k g
        sample_messages)
qed

section \<open>The history of a request\<close>

text \<open>
  Claim C6. Whatever request \<open>sendMessage\<close> sends, multipart or streaming, its history
  is the list of the messages held before the call, in order, each as its role and its
  content. An entry has no other field, so no attachment is part of it.
\<close>

theorem history_is_role_content_pairs:
  assumes "fst (sendMessage env st) = Some req"
  shows "request_history req = map (\<lambda>m. \<lparr>h_role = role m, h_content = content m\<rparr>) (messages st)"
proof (cases "blank_turn st")
  case True
  with assms show ?thesis by (simp add: sendMessage_def)
next
  case False
  with assms show ?thesis
    by (auto simp: sendMessage_unfold Let_def multipart_request_def stream_request_def
        historyForRequest_eq split: if_splits prod.splits)
qed

theorem history_is_role_content_pairs_witness:
  "fst (sendMessage (sample_env sample_stream) sample_state) =
     Some (FetchPostJson (js ''http://localhost:8001/api/v1/chat/stream'')
       \<lparr>jb_message = js ''Estimate a villa'',
        jb_history = [\<lparr>h_role = Assistant, h_content = content greeting\<rparr>],
        jb_session_id = Some (js ''session-k3j9x2m1qzw''), jb_quotation_id = None\<rparr>)
   \<and> request_history (FetchPostJson (js ''http://localhost:8001/api/v1/chat/stream'')
       \<lparr>jb_message = js ''Estimate a villa'',
        jb_history = [\<lparr>h_role = Assistant, h_content = content greeting\<rparr>],
        jb_session_id = Some (js ''session-k3j9x2m1qzw''), jb_quotation_id = None\<rparr>) =
     map (\<lambda>m. \<lparr>h_role = role m, h_content = content m\<rparr>) (messages sample_state)"
  using history_is_role_content_pairs [OF sample_request] sample_request by simp

section \<open>Where downloads are offered\<close>

theorem chat_offers_download_before_completion:
  "\<not> offered_only_when_completed (\<lambda>quotation_id. Some (js ''pending''))
       (chat_download_buttons (snd (sendMessage (sample_env sample_stream) sample_state)))
   \<and> chat_download_buttons (snd (sendMessage (sample_env sample_stream) sample_state)) =
       Some \<lparr>dl_quotationId = js ''quot-1'', disabled = False\<rparr>
   \<and> handleDownload (js ''http://localhost:8001'')
        \<lparr>dl_quotationId = js ''quot-1'', disabled = False\<rparr> None Pdf =
       Some (js ''http://localhost:8001/api/v1/quotations/quot-1/download?format=pdf'')"
  by (simp add: offered_only_when_completed_def chat_download_buttons_def
      sample_stream_quotationId handleDownload_def)
     (simp add: js_def)

text \<open>
  Claim C7, as the code has it. The status page renders DownloadButtons only when the
  status it last polled is \<open>completed\<close>. The chat renders them exactly when it holds a
  quotation id, and tracks no status. A click on a button issues the request exactly
  when the buttons are not disabled and no download is under way.
\<close>

theorem download_controls_offered:
  "(page_download_buttons pg = Some props \<longrightarrow>
      status pg = Some (js ''completed'')
      \<and> props = \<lparr>dl_quotationId = page_quotationId pg, disabled = False\<rparr>)
   \<and> (chat_download_buttons st = Some props \<longleftrightarrow>
      truthy (quotationId st)
      \<and> props = \<lparr>dl_quotationId = the (quotationId st), disabled = False\<rparr>)
   \<and> (handleDownload api props downloading fmt \<noteq> None \<longleftrightarrow>
      \<not> disabled props \<and> downloading = None)"
  by (auto simp: page_download_buttons_def chat_download_buttons_def handleDownload_def
      split: if_splits)

theorem download_controls_offered_witness:
  "page_download_buttons sample_page = Some \<lparr>dl_quotationId = js ''quot-1'', disabled = False\<rparr>
   \<and> status sample_page = Some (js ''completed'')
   \<and> page_download_buttons (sample_page\<lparr>status := Some (js ''processing'')\<rparr>) = None
   \<and> handleDownload (js ''http://localhost:8001'')
        \<lparr>dl_quotationId = js ''quot-1'', disabled = False\<rparr> None Pdf \<noteq> None"
proof -
  have p: "page_download_buttons sample_page =
      Some \<lparr>dl_quotationId = js ''quot-1'', disabled = False\<rparr>"
    by (simp add: page_download_buttons_def sample_page_def)
  have q: "page_download_buttons (sample_page\<lparr>status := Some (js ''processing'')\<rparr>) = None"
    by (simp add: page_download_buttons_def sample_page_def js_def)
  note g = download_controls_offered [of sample_page
        "\<lparr>dl_quotationId = js ''quot-1'', disabled = False\<rparr>" sample_state
        "js ''http://localhost:8001''" None Pdf]
  from g have d: "handleDownload (js ''http://localhost:8001'')
        \<lparr>dl_quotationId = js ''quot-1'', disabled = False\<rparr> None Pdf \<noteq> None"
    by simp
  from g p have s: "status sample_page = Some (js ''completed'')"
    by simp
  from p q d s show ?thesis
    by simp
qed

section \<open>The product of a length and 0.3 in double arithmetic\<close>

lemma bit_length_numeral [simp]:
  "bit_length 0 = 0"
  "bit_length (Suc 0) = 1"
  "bit_length (numeral (Num.Bit0 k)) = Suc (bit_length (numeral k))"
  "bit_length (numeral (Num.Bit1 k)) = Suc (bit_length (numeral k))"
  "bit_length (numeral Num.One) = 1"
  by (simp_all add: bit_length.simps [of "numeral (Num.Bit0 k)"]
        bit_length.simps [of "numeral (Num.Bit1 k)"] bit_length.simps [of 0]
        bit_length.simps [of "Suc 0"] bit_length.simps [of 1])

lemma bit_length_gt: "n < 2 ^ bit_length n"
proof (induction n rule: bit_length.induct)
  case (1 n)
  show ?case
  proof (cases "n = 0")
    case True
    then show ?thesis by simp
  next
    case False
    with 1 have "n div 2 < 2 ^ bit_length (n div 2)" by simp
    then have "n < 2 * 2 ^ bit_length (n div 2)" by linarith
    with False show ?thesis by (simp add: bit_length.simps [of n])
  qed
qed

lemma bit_length_le: "n \<noteq> 0 \<Longrightarrow> 2 ^ (bit_length n - 1) \<le> n"
proof (induction n rule: bit_length.induct)
  case (1 n)
  show ?case
  proof (cases "n div 2 = 0")
    case True
    with 1(2) have "n = 1" by linarith
    then show ?thesis by simp
  next
    case False
    with 1 have "2 ^ (bit_length (n div 2) - 1) \<le> n div 2" by simp
    then have "2 * 2 ^ (bit_length (n div 2) - 1) \<le> n" by linarith
    moreover from False have "bit_length (n div 2) \<noteq> 0"
      by (simp add: bit_length.simps [of "n div 2"])
    then have "2 * (2::nat) ^ (bit_length (n div 2) - 1) = 2 ^ bit_length (n div 2)"
      by (cases "bit_length (n div 2)") simp_all
    ultimately show ?thesis
      using 1(2) by (simp add: bit_length.simps [of n])
  qed
qed

lemma bit_length_lower: "2 ^ j \<le> n \<Longrightarrow> j < bit_length n"
proof -
  assume "2 ^ j \<le> n"
  with bit_length_gt [of n] have "(2::nat) ^ j < 2 ^ bit_length n" by linarith
  then show ?thesis by simp
qed

lemma bit_length_upper: "n < 2 ^ j \<Longrightarrow> bit_length n \<le> j"
proof (cases "n = 0")
  case True
  then show ?thesis by simp
next
  case False
  assume "n < 2 ^ j"
  with bit_length_le [OF False] have "(2::nat) ^ (bit_length n - 1) < 2 ^ j" by linarith
  then have "bit_length n - 1 < j" by simp
  then show ?thesis by linarith
qed

text \<open>The rounding moves a number by at most half the unit of its last place.\<close>

lemma round53_error:
  "2 * round53 a \<le> 2 * a + 2 ^ (bit_length a - 53)
   \<and> 2 * a \<le> 2 * round53 a + 2 ^ (bit_length a - 53)"
proof -
  define s where "s = bit_length a - 53"
  define q where "q = a div 2 ^ s"
  define r where "r = a mod 2 ^ s"
  have a: "a = q * 2 ^ s + r"
    unfolding q_def r_def by (rule div_mult_mod_eq [symmetric])
  have r: "r < 2 ^ s"
    by (simp add: r_def)
  have "round53 a = (if 2 * r < 2 ^ s \<or> (2 * r = 2 ^ s \<and> even q) then q * 2 ^ s
                     else (q + 1) * 2 ^ s)"
    by (simp add: round53_def Let_def s_def q_def r_def)
  with a r show ?thesis
    unfolding s_def [symmetric]
    by (auto simp: algebra_simps)
qed

text \<open>A multiple of the unit that lies less than half a unit above is the rounded value.\<close>

lemma round53_up:
  assumes "a \<le> T" and "2 ^ (bit_length a - 53) dvd T"
    and "2 * (T - a) < 2 ^ (bit_length a - 53)"
  shows "round53 a = T"
proof -
  define s where "s = bit_length a - 53"
  define q where "q = a div 2 ^ s"
  define r where "r = a mod 2 ^ s"
  have a: "a = q * 2 ^ s + r"
    unfolding q_def r_def by (rule div_mult_mod_eq [symmetric])
  have r: "r < 2 ^ s"
    by (simp add: r_def)
  have rd: "round53 a = (if 2 * r < 2 ^ s \<or> (2 * r = 2 ^ s \<and> even q) then q * 2 ^ s
                     else (q + 1) * 2 ^ s)"
    by (simp add: round53_def Let_def s_def q_def r_def)
  from assms(2) obtain j where T: "T = j * 2 ^ s"
    unfolding s_def [symmetric] by (auto simp: dvd_def mult.commute)
  from assms(1) have le: "q * 2 ^ s + r \<le> j * 2 ^ s"
    unfolding T a .
  from assms(3) have "2 * (T - a) < 2 ^ s"
    unfolding s_def .
  then have near: "2 * (j * 2 ^ s - (q * 2 ^ s + r)) < 2 ^ s"
    unfolding T a .
  show ?thesis
  proof (cases "r = 0")
    case True
    with le near have "j * 2 ^ s < (q + 1) * 2 ^ s" "q * 2 ^ s \<le> j * 2 ^ s"
      by (simp_all add: algebra_simps)
    then have "j < q + 1" "q \<le> j"
      unfolding mult_less_cancel2 mult_le_cancel2 by simp_all
    then have "j = q" by simp
    with rd True T show ?thesis by simp
  next
    case False
    from le near r have "j * 2 ^ s < (q + 2) * 2 ^ s"
      by (simp add: algebra_simps)
    then have 1: "j < q + 2" unfolding mult_less_cancel2 by simp
    from le False have "q * 2 ^ s < j * 2 ^ s"
      by linarith
    then have 2: "q < j" unfolding mult_less_cancel2 by simp
    from 1 2 have j: "j = q + 1" by simp
    with near have "2 * r > 2 ^ s"
      by (simp add: algebra_simps)
    with rd j T show ?thesis by auto
  qed
qed

lemma round53_zero: "round53 0 = 0"
  by (simp add: round53_def)

lemma rounding_unit:
  "2 ^ (bit_length a - 53) * (2::nat) ^ 52 \<le> a + 2 ^ 52"
proof (cases "bit_length a \<le> 53")
  case True
  then show ?thesis by simp
next
  case False
  then have "a \<noteq> 0" by (cases "a = 0") simp_all
  from bit_length_le [OF this] have le: "2 ^ (bit_length a - 1) \<le> a" .
  from False obtain s where s: "bit_length a = s + 53"
    by (metis add.commute le_add_diff_inverse nat_le_linear)
  from le have "2 ^ (s + 52) \<le> a"
    unfolding s by (simp add: add.commute)
  then have "2 ^ s * (2::nat) ^ 52 \<le> a"
    unfolding power_add .
  then show ?thesis
    unfolding s by simp
qed

text \<open>
  Where three tenths of the length is an integer, the product in doubles is that integer:
  the exact product lies just below it, by less than half a unit.
\<close>

lemma times_0_3_exact_multiple:
  assumes "k < 2 ^ 29"
  shows "times_0_3 (10 * k) = 3 * k * 2 ^ 54"
proof (cases "k = 0")
  case True
  then show ?thesis by (simp add: times_0_3_def round53_zero)
next
  case False
  define a where "a = 10 * k * 5404319552844595"
  define T where "T = 3 * k * (2::nat) ^ 54"
  have aT: "a + 2 * k = T"
    by (simp add: a_def T_def)
  have lo: "2 ^ (bit_length k - 1 + 55) \<le> a"
  proof -
    have "2 ^ (bit_length k - 1) * (2::nat) ^ 55 \<le> k * 2 ^ 55"
      using bit_length_le [OF False] by simp
    also have "\<dots> \<le> a"
      by (simp add: a_def)
    finally show ?thesis by (simp add: power_add)
  qed
  have hi: "a < 2 ^ (bit_length k + 56)"
  proof -
    have "a < k * 2 ^ 56"
      using False by (simp add: a_def)
    also have "\<dots> < 2 ^ bit_length k * 2 ^ 56"
      using bit_length_gt [of k] by simp
    finally show ?thesis by (simp add: power_add)
  qed
  from False have bk: "bit_length k \<noteq> 0"
    by (simp add: bit_length.simps [of k])
  from bit_length_lower [OF lo] bk have s_lo: "bit_length k + 2 \<le> bit_length a - 53"
    by simp
  from bit_length_upper [OF hi] have s_hi: "bit_length a - 53 \<le> bit_length k + 3"
    by simp
  from bit_length_upper [OF assms] have "bit_length k \<le> 29" .
  with s_hi have "bit_length a - 53 \<le> 54" by simp
  then have "(2::nat) ^ (bit_length a - 53) dvd 2 ^ 54"
    by (rule le_imp_power_dvd)
  then have d: "2 ^ (bit_length a - 53) dvd T"
    unfolding T_def by (rule dvd_mult)
  have "4 * k < 4 * 2 ^ bit_length k"
    using bit_length_gt [of k] by simp
  also have "\<dots> = 2 ^ (bit_length k + 2)"
    by (simp add: power_add)
  also have "\<dots> \<le> 2 ^ (bit_length a - 53)"
    using s_lo by (rule power_increasing) simp
  finally have near: "2 * (T - a) < 2 ^ (bit_length a - 53)"
    using aT by simp
  from aT have "a \<le> T" by simp
  from round53_up [OF this d near] show ?thesis
    by (simp add: times_0_3_def a_def T_def)
qed

text \<open>
  So the comparison in doubles decides the comparison of the exact numbers: elsewhere
  the count and three tenths of the length differ by a tenth at least, far more than
  the rounding moves the product.
\<close>

lemma greater_than_times_0_3_iff:
  assumes "n < 2 ^ 32"
  shows "greater_than_times_0_3 c n \<longleftrightarrow> 3 * n < 10 * c"
proof -
  define a where "a = n * 5404319552844595"
  define S where "S = (2::nat) ^ (bit_length a - 53)"
  define R where "R = round53 a"
  have u: "S * 4503599627370496 \<le> a + 4503599627370496"
    using rounding_unit [of a] by (simp add: S_def)
  have e1: "2 * R \<le> 2 * a + S" and e2: "2 * a \<le> 2 * R + S"
    using round53_error [of a] by (simp_all add: R_def S_def)
  have n: "n < 4294967296"
    using assms by simp
  consider "3 * n < 10 * c" | "10 * c < 3 * n" | "3 * n = 10 * c"
    by linarith
  then have "R < c * 18014398509481984 \<longleftrightarrow> 3 * n < 10 * c"
  proof cases
    case 1
    with u e1 n show ?thesis
      unfolding a_def by linarith
  next
    case 2
    with u e2 n show ?thesis
      unfolding a_def by linarith
  next
    case 3
    define k where "k = n - 3 * c"
    from 3 have nk: "n = 10 * k" and ck: "c = 3 * k"
      unfolding k_def by linarith+
    from n nk have "k < 2 ^ 29"
      by simp
    from times_0_3_exact_multiple [OF this] have "times_0_3 n = c * 2 ^ 54"
      unfolding nk ck by simp
    with 3 show ?thesis
      by (simp add: R_def a_def times_0_3_def)
  qed
  then show ?thesis
    by (simp add: greater_than_times_0_3_def times_0_3_def R_def a_def)
qed

section \<open>detectLanguage\<close>

text \<open>
  Claim C8. For a text of fewer than \<open>2 ^ 32\<close> code units (no engine builds a longer
  string), \<open>detectLanguage\<close> answers \<open>ar\<close> exactly when the text has a code unit in
  U+0600 to U+06FF and the number of such code units is strictly greater than three
  tenths of the length, and \<open>en\<close> otherwise; \<open>isRTL\<close> holds exactly when the answer is
  \<open>ar\<close>; a text whose share of Arabic code units is at most 30 percent is \<open>en\<close>.
\<close>

theorem detectLanguage_threshold:
  assumes "length text < 2 ^ 32"
  shows "(detectLanguage text = Ar \<longleftrightarrow>
            list_ex isArabic text \<and> 3 * length text < 10 * length (filter isArabic text))
     \<and> (detectLanguage text = Ar \<or> detectLanguage text = En)
     \<and> (isRTL text \<longleftrightarrow> detectLanguage text = Ar)
     \<and> (10 * length (filter isArabic text) \<le> 3 * length text \<longrightarrow> detectLanguage text = En)"
  using greater_than_times_0_3_iff [OF assms, of "length (filter isArabic text)"]
  by (auto simp: detectLanguage_def isRTL_def Let_def)

lemma sample_mixed_counts:
  "length sample_mixed_text = 10" "length (filter isArabic sample_mixed_text) = 3"
  by (simp_all add: sample_mixed_text_def js_def isArabic_def)

lemma sample_arabic_counts:
  "length sample_arabic_text = 10" "length (filter isArabic sample_arabic_text) = 4"
  "list_ex isArabic sample_arabic_text"
  by (simp_all add: sample_arabic_text_def js_def isArabic_def)

theorem detectLanguage_threshold_witness:
  "length sample_mixed_text < 2 ^ 32 \<and> length sample_arabic_text < 2 ^ 32
   \<and> length (filter isArabic sample_mixed_text) = 3 \<and> length sample_mixed_text = 10
   \<and> detectLanguage sample_mixed_text = En \<and> \<not> isRTL sample_mixed_text
   \<and> length (filter isArabic sample_arabic_text) = 4 \<and> length sample_arabic_text = 10
   \<and> detectLanguage sample_arabic_text = Ar \<and> isRTL sample_arabic_text"
proof -
  have m: "length sample_mixed_text < 2 ^ 32" and a: "length sample_arabic_text < 2 ^ 32"
    by (simp_all add: sample_mixed_counts sample_arabic_counts)
  from detectLanguage_threshold [OF m]
  have "detectLanguage sample_mixed_text = En" "\<not> isRTL sample_mixed_text"
    by (simp_all add: sample_mixed_counts)
  moreover from detectLanguage_threshold [OF a]
  have "detectLanguage sample_arabic_text = Ar" "isRTL sample_arabic_text"
    by (simp_all add: sample_arabic_counts)
  ultimately show ?thesis
    using m a by (simp add: sample_mixed_counts sample_arabic_counts)
qed

section \<open>The frame of a content update\<close>

lemma update_assistant_frame:
  "length (update_assistant idx full msgs) = length msgs
   \<and> (\<forall>j < length msgs.
         int j \<noteq> idx \<or> role (msgs ! j) \<noteq> Assistant
         \<longrightarrow> update_assistant idx full msgs ! j = msgs ! j)
   \<and> (\<forall>j < length msgs.
         role (update_assistant idx full msgs ! j) = role (msgs ! j)
         \<and> msg_attachments (update_assistant idx full msgs ! j) = msg_attachments (msgs ! j))"
  by (auto simp: update_assistant_def nth_list_update)

text \<open>
  Claim C9. Handling a content event, and React running the updaters such events have
  queued, change nothing of the state but the messages, keep their number, and leave
  every message unchanged that is not the one at the index held in
  \<open>assistantMessageRef\<close> with role assistant; of that one they change the content only.
\<close>

theorem content_update_frame:
  assumes "handle_event (ContentEvent c) (st, loc) = Inr (st', loc')
           \<or> run_queued (st, loc) = (st', loc')"
  shows "st' = st\<lparr>messages := messages st'\<rparr>
     \<and> length (messages st') = length (messages st)
     \<and> (\<forall>j < length (messages st).
           int j \<noteq> assistantMessageRef st \<or> role (messages st ! j) \<noteq> Assistant
           \<longrightarrow> messages st' ! j = messages st ! j)
     \<and> (\<forall>j < length (messages st).
           role (messages st' ! j) = role (messages st ! j)
           \<and> msg_attachments (messages st' ! j) = msg_attachments (messages st ! j))"
proof -
  from assms have "st' = st \<or>
      (\<exists>full. st' = st\<lparr>messages := update_assistant (assistantMessageRef st) full (messages st)\<rparr>)"
    by (auto simp: Let_def run_queued_eq split: list.splits if_splits)
  then show ?thesis
  proof
    assume "st' = st"
    then show ?thesis by simp
  next
    assume "\<exists>full. st' =
        st\<lparr>messages := update_assistant (assistantMessageRef st) full (messages st)\<rparr>"
    then obtain full where
      "st' = st\<lparr>messages := update_assistant (assistantMessageRef st) full (messages st)\<rparr>" ..
    then show ?thesis
      using update_assistant_frame [of "assistantMessageRef st" full "messages st"] by simp
  qed
qed

theorem content_update_frame_witness:
  "handle_event (ContentEvent (js ''Hel'')) (sample_streaming_state, start_locals [True]) =
     Inr (sample_streaming_state\<lparr>messages :=
            [greeting,
             \<lparr>role = User, content = js ''Estimate a villa'', msg_attachments = Some []\<rparr>,
             \<lparr>role = Assistant, content = js ''Hel'', msg_attachments = None\<rparr>]\<rparr>,
          \<lparr>buffer = [], fullResponse = js ''Hel'', queued = 0, renders = []\<rparr>)
   \<and> messages sample_streaming_state =
       [greeting,
        \<lparr>role = User, content = js ''Estimate a villa'', msg_attachments = Some []\<rparr>,
        \<lparr>role = Assistant, content = [], msg_attachments = None\<rparr>]
   \<and> assistantMessageRef sample_streaming_state = 2"
proof -
  have ms: "messages sample_streaming_state =
       [greeting,
        \<lparr>role = User, content = js ''Estimate a villa'', msg_attachments = Some []\<rparr>,
        \<lparr>role = Assistant, content = [], msg_attachments = None\<rparr>]"
    by (simp add: sample_streaming_state_def add_placeholder_def sending_def Let_def
        sample_messages sample_user_message)
  have r: "assistantMessageRef sample_streaming_state = 2"
    by (simp add: sample_streaming_state_def add_placeholder_def sending_def Let_def
        sample_messages)
  have h: "handle_event (ContentEvent (js ''Hel'')) (sample_streaming_state, start_locals [True]) =
     Inr (sample_streaming_state\<lparr>messages :=
            [greeting,
             \<lparr>role = User, content = js ''Estimate a villa'', msg_attachments = Some []\<rparr>,
             \<lparr>role = Assistant, content = js ''Hel'', msg_attachments = None\<rparr>]\<rparr>,
          \<lparr>buffer = [], fullResponse = js ''Hel'', queued = 0, renders = []\<rparr>)"
    by (simp add: Let_def ms r update_assistant_def run_queued_eq start_locals_def)
  show ?thesis
    using content_update_frame [OF disjI1 [OF h]] h ms r by simp
qed

section \<open>The guard of sendMessage\<close>

text \<open>
  Claim C10. If the input is empty or holds only white space, and there is no
  attachment, \<open>sendMessage\<close> returns at once: it issues no request and leaves the
  whole state, so the messages, the input and the attachments, as it was; the Send
  button is disabled under the same condition.
\<close>

theorem blank_turn_is_noop:
  assumes "list_all isWhiteSpace (input st)" and "attachments st = []"
  shows "sendMessage env st = (None, st) \<and> send_disabled st"
  using assms by (simp add: sendMessage_def send_disabled_def blank_turn_iff trim_empty_iff)

theorem blank_turn_is_noop_witness:
  "list_all isWhiteSpace (input blank_state) \<and> attachments blank_state = []
   \<and> sendMessage (sample_env sample_stream) blank_state = (None, blank_state)
   \<and> send_disabled blank_state"
proof -
  have a: "list_all isWhiteSpace (input blank_state)"
    by (simp add: blank_state_def js_def isWhiteSpace_def)
  have b: "attachments blank_state = []"
    by (simp add: blank_state_def sample_no_attachments)
  show ?thesis
    using blank_turn_is_noop [OF a b, of "sample_env sample_stream"] a b by simp
qed

end
